theory Spec2Isabelle
  imports Complex_Main "HOL-Library.Sublist" "HOL-Library.AList"
begin

section \<open>The Ollama model manager: export, import, delete and scan\<close>

text \<open>
  The three source files carry the same class \<^verbatim>\<open>OllamaModelManager\<close> (the engine), line
  for line; the line numbers below are those of \<^verbatim>\<open>src/ollama_cli.py\<close>.

  Modelling boundaries.
  \<^item> A path is the list of its components. The names the engine joins to a directory (model
    name, parameter size, blob file name, archive member name) are taken as single
    components: names holding a separator or a dot entry are outside the model.
  \<^item> The file system is an association list from paths to nodes, in the order in which the
    operating system enumerates them; the root is always a directory.
  \<^item> The JSON library is a parameter: a function from the bytes of a manifest to a manifest
    document (every field optional, as the engine reads each one with \<^verbatim>\<open>.get\<close> and a
    default), a function from the bytes of \<^verbatim>\<open>metadata.json\<close> to its two name fields, and
    the writer of \<^verbatim>\<open>metadata.json\<close>. Documents of another shape than the manifest's are
    outside the model.
  \<^item> A gzip-compressed tar file is a file whose content is its member list.
  \<^item> The engine returns \<^verbatim>\<open>None\<close> or a message; the messages are the constructors of
    \<open>outcome\<close> (the text of the wrapped exception is dropped), and an exception that leaves
    the engine uncaught is the outcome \<open>Raised\<close>.
  \<^item> Percentages are real numbers: Python's floating-point rounding is not modelled.
\<close>

subsection \<open>Strings\<close>

definition startswith :: "string \<Rightarrow> string \<Rightarrow> bool" where
  "startswith s p = prefix p s"

definition replace_char :: "char \<Rightarrow> char \<Rightarrow> string \<Rightarrow> string" where
  "replace_char a b s = map (\<lambda>c. if c = a then b else c) s"

text \<open>\<^verbatim>\<open>s.split(c)\<close>: the segments between the occurrences of \<open>c\<close>, at least one.\<close>

fun split_on :: "char \<Rightarrow> string \<Rightarrow> string list" where
  "split_on c [] = [[]]"
| "split_on c (x # xs) =
     (if x = c then [] # split_on c xs
      else (case split_on c xs of [] \<Rightarrow> [[x]] | w # ws \<Rightarrow> (x # w) # ws))"



subsection \<open>The file system\<close>

type_synonym path = "string list"

datatype content = Data string | Archive "(string \<times> content) list"

datatype node = File content | Dir

type_synonym filesystem = "(path \<times> node) list"

datatype exn =
    FileNotFoundError | NotADirectoryError | IsADirectoryError | FileExistsError
  | DirectoryNotEmpty | SameFileError | ZeroDivisionError

text \<open>\<^verbatim>\<open>p / s\<close> of pathlib: joining the empty string gives the directory itself.\<close>

definition joinpath :: "path \<Rightarrow> string \<Rightarrow> path" where
  "joinpath p s = (if s = [] then p else p @ [s])"

definition lookup :: "filesystem \<Rightarrow> path \<Rightarrow> node option" where
  "lookup fs p = (if p = [] then Some Dir else map_of fs p)"

definition path_exists :: "filesystem \<Rightarrow> path \<Rightarrow> bool" where
  "path_exists fs p = (lookup fs p \<noteq> None)"

definition is_dir :: "filesystem \<Rightarrow> path \<Rightarrow> bool" where
  "is_dir fs p = (lookup fs p = Some Dir)"


definition read_file :: "filesystem \<Rightarrow> path \<Rightarrow> exn + content" where
  "read_file fs p =
     (case lookup fs p of
        None \<Rightarrow> Inl FileNotFoundError
      | Some Dir \<Rightarrow> Inl IsADirectoryError
      | Some (File c) \<Rightarrow> Inr c)"

text \<open>Opening a file for writing creates it in an existing directory, or truncates it.\<close>

definition write_file :: "filesystem \<Rightarrow> path \<Rightarrow> content \<Rightarrow> exn + filesystem" where
  "write_file fs p c =
     (case lookup fs p of
        Some Dir \<Rightarrow> Inl IsADirectoryError
      | Some (File old) \<Rightarrow> Inr (AList.update p (File c) fs)
      | None \<Rightarrow>
          (case lookup fs (butlast p) of
             None \<Rightarrow> Inl FileNotFoundError
           | Some (File old) \<Rightarrow> Inl NotADirectoryError
           | Some Dir \<Rightarrow> Inr (AList.update p (File c) fs)))"

text \<open>
  \<^verbatim>\<open>shutil.copy2(src, dst)\<close>: a destination that is a directory receives the file under the
  source's base name; copying a file onto itself raises.
\<close>

definition copy2 :: "filesystem \<Rightarrow> path \<Rightarrow> path \<Rightarrow> exn + filesystem" where
  "copy2 fs src dst =
     (let target = (if is_dir fs dst then dst @ [last src] else dst) in
      if path_exists fs src \<and> src = target then Inl SameFileError
      else (case read_file fs src of
              Inl e \<Rightarrow> Inl e
            | Inr c \<Rightarrow> write_file fs target c))"

text \<open>\<^verbatim>\<open>shutil.rmtree(d)\<close> removes the directory and everything below it.\<close>

definition rmtree :: "filesystem \<Rightarrow> path \<Rightarrow> exn + filesystem" where
  "rmtree fs d =
     (case lookup fs d of
        None \<Rightarrow> Inl FileNotFoundError
      | Some (File c) \<Rightarrow> Inl NotADirectoryError
      | Some Dir \<Rightarrow> Inr (filter (\<lambda>(q, n). \<not> prefix d q) fs))"

text \<open>\<^verbatim>\<open>shutil.rmtree(d, ignore_errors=True)\<close>.\<close>

definition rmtree_ignore_errors :: "filesystem \<Rightarrow> path \<Rightarrow> filesystem" where
  "rmtree_ignore_errors fs d = (case rmtree fs d of Inl e \<Rightarrow> fs | Inr fs' \<Rightarrow> fs')"

text \<open>\<^verbatim>\<open>os.mkdir\<close>.\<close>

definition os_mkdir :: "filesystem \<Rightarrow> path \<Rightarrow> exn + filesystem" where
  "os_mkdir fs p =
     (case lookup fs p of
        Some n \<Rightarrow> Inl FileExistsError
      | None \<Rightarrow>
          (case lookup fs (butlast p) of
             None \<Rightarrow> Inl FileNotFoundError
           | Some (File c) \<Rightarrow> Inl NotADirectoryError
           | Some Dir \<Rightarrow> Inr (AList.update p Dir fs)))"

text \<open>
  \<^verbatim>\<open>Path.mkdir(parents=True, exist_ok=...)\<close>: try \<^verbatim>\<open>os.mkdir\<close>; when the parent is missing,
  make the parent (with \<^verbatim>\<open>exist_ok=True\<close>) and try again; any other error is raised again
  unless \<^verbatim>\<open>exist_ok\<close> holds and the path is a directory.
\<close>

definition mkdir_no_parents :: "bool \<Rightarrow> filesystem \<Rightarrow> path \<Rightarrow> exn + filesystem" where
  "mkdir_no_parents exist_ok fs p =
     (case os_mkdir fs p of
        Inr fs' \<Rightarrow> Inr fs'
      | Inl e \<Rightarrow> if e \<noteq> FileNotFoundError \<and> exist_ok \<and> is_dir fs p then Inr fs else Inl e)"

fun mkdir_parents :: "bool \<Rightarrow> filesystem \<Rightarrow> path \<Rightarrow> exn + filesystem" where
  "mkdir_parents exist_ok fs p =
     (case os_mkdir fs p of
        Inr fs' \<Rightarrow> Inr fs'
      | Inl e \<Rightarrow>
          if e = FileNotFoundError then
            (if p = [] then Inl e
             else (case mkdir_parents True fs (butlast p) of
                     Inl e' \<Rightarrow> Inl e'
                   | Inr fs' \<Rightarrow> mkdir_no_parents exist_ok fs' p))
          else if exist_ok \<and> is_dir fs p then Inr fs
          else Inl e)"

definition unlink :: "filesystem \<Rightarrow> path \<Rightarrow> exn + filesystem" where
  "unlink fs p =
     (case lookup fs p of
        None \<Rightarrow> Inl FileNotFoundError
      | Some Dir \<Rightarrow> Inl IsADirectoryError
      | Some (File c) \<Rightarrow> Inr (AList.delete p fs))"



subsection \<open>Manifests, the JSON library and the manager\<close>

record blob_ref =
  digest :: "string option"
  size_bytes :: "int option"

record manifest =
  config :: "blob_ref option"
  layers :: "blob_ref list option"

text \<open>\<^verbatim>\<open>manifest.get("layers", [])\<close>, \<^verbatim>\<open>manifest.get("config", {})\<close>,
  \<^verbatim>\<open>x.get("digest", "")\<close> and \<^verbatim>\<open>x.get("size", 0)\<close>.\<close>

definition get_layers :: "manifest \<Rightarrow> blob_ref list" where
  "get_layers m = (case layers m of None \<Rightarrow> [] | Some ls \<Rightarrow> ls)"

definition get_config :: "manifest \<Rightarrow> blob_ref" where
  "get_config m =
     (case config m of None \<Rightarrow> \<lparr>digest = None, size_bytes = None\<rparr> | Some c \<Rightarrow> c)"

definition get_digest :: "blob_ref \<Rightarrow> string" where
  "get_digest r = (case digest r of None \<Rightarrow> [] | Some d \<Rightarrow> d)"

definition get_size :: "blob_ref \<Rightarrow> int" where
  "get_size r = (case size_bytes r of None \<Rightarrow> 0 | Some n \<Rightarrow> n)"

record json_lib =
  load_manifest :: "string \<Rightarrow> manifest option"
  load_metadata :: "string \<Rightarrow> (string option \<times> string option) option"
  dump_metadata :: "string \<Rightarrow> string \<Rightarrow> path \<Rightarrow> string"

text \<open>\<^verbatim>\<open>with open(f, 'r') as f: manifest = json.load(f)\<close> under \<^verbatim>\<open>except Exception\<close>.\<close>

definition json_load_manifest :: "json_lib \<Rightarrow> filesystem \<Rightarrow> path \<Rightarrow> manifest option" where
  "json_load_manifest J fs p =
     (case read_file fs p of
        Inr (Data s) \<Rightarrow> load_manifest J s
      | _ \<Rightarrow> None)"

record manager =
  ollama_dir :: path
  models_dir :: path
  manifests_dir :: path
  blobs_dir :: path

text \<open>\<^verbatim>\<open>OllamaModelManager.__init__\<close> (lines 15-27), from the home directory.\<close>

definition init_manager :: "path \<Rightarrow> filesystem \<Rightarrow> manager" where
  "init_manager home fs =
     (let od = home @ [''.ollama'']; md = od @ [''models''] in
      if path_exists fs md then
        \<lparr>ollama_dir = od, models_dir = md,
         manifests_dir = md @ [''manifests''], blobs_dir = md @ [''blobs'']\<rparr>
      else
        \<lparr>ollama_dir = od, models_dir = od,
         manifests_dir = od @ [''manifests''], blobs_dir = od @ [''blobs'']\<rparr>)"

definition library_path :: "manager \<Rightarrow> path" where
  "library_path mgr = manifests_dir mgr @ [''registry.ollama.ai'', ''library'']"

definition blob_filename_of :: "string \<Rightarrow> string" where
  "blob_filename_of d = replace_char CHR '':'' CHR ''-'' d"

definition is_sha256 :: "string \<Rightarrow> bool" where
  "is_sha256 d = startswith d ''sha256:''"

subsection \<open>Progress reports, outcomes and the state\<close>

text \<open>The messages of the progress callback, each constructor with the values its f-string
  prints.\<close>

datatype message =
    Copying string real | Copied string | CopyingConfig string | CopiedConfig string
  | CreatingArchive | AddingToArchive string | ExportComplete
  | ExtractingArchive | Extracting string | ReadingManifest | Importing string string
  | ImportComplete
  | ReadingManifestFor string string | DeletingBlobFiles | Deleting string
  | DeletingManifest | DeletingEmptyDirectory string | DeleteComplete

text \<open>
  The callback answers a report with the continue flag. It may answer the same report
  differently at different times (a cancellation flag set by the user), so it is a function
  of all the reports made so far, the current one last.
\<close>

type_synonym callback = "(message \<times> real) list \<Rightarrow> bool"

datatype outcome =
    NoError
  | OperationCancelled
  | CompletedButCancelled
  | ErrorReadingManifest
  | BlobFileNotFound string
  | ErrorCreatingArchive
  | ArchiveNotFound
  | ErrorExtractingArchive
  | NoManifestInArchive
  | ErrorReadingMetadata
  | ErrorCopyingManifest
  | ErrorCopyingConfigBlob
  | ErrorCopyingLayerBlob
  | BlobNotFoundInArchive string
  | ModelNotFound
  | ErrorDeletingManifest
  | Raised exn

record state =
  files :: filesystem
  reports :: "(message \<times> real) list"

definition report :: "callback \<Rightarrow> message \<Rightarrow> real \<Rightarrow> state \<Rightarrow> bool \<times> state" where
  "report cb msg pct st =
     (let h = reports st @ [(msg, pct)] in (cb h, st\<lparr>reports := h\<rparr>))"

text \<open>\<^verbatim>\<open>if progress_callback: if not progress_callback(msg, pct): ...\<close> with a percentage
  that is a constant.\<close>

definition checkpoint :: "callback option \<Rightarrow> message \<Rightarrow> real \<Rightarrow> state \<Rightarrow> bool \<times> state" where
  "checkpoint pc msg pct st =
     (case pc of None \<Rightarrow> (True, st) | Some cb \<Rightarrow> report cb msg pct st)"

subsection \<open>\<^verbatim>\<open>export_model\<close> (lines 113-248)\<close>

definition export_temp_dir :: "string \<Rightarrow> string \<Rightarrow> path" where
  "export_temp_dir model_name param_size =
     [''tmp'', ''ollama-export-'' @ model_name @ ''-'' @ param_size]"

text \<open>Lines 143-150.\<close>

definition total_size_of :: "manifest \<Rightarrow> int" where
  "total_size_of m = sum_list (map get_size (get_layers m)) + get_size (get_config m)"

text \<open>
  The checkpoint of the blob-copy phase (lines 167-171, 178-182, 193-197, 204-208): the
  percentage is computed only when there is a callback, and the division raises on a zero
  total; a cancellation removes the working directory.
\<close>

definition copy_checkpoint ::
  "callback option \<Rightarrow> path \<Rightarrow> message \<Rightarrow> int \<Rightarrow> int \<Rightarrow> state \<Rightarrow> (outcome \<times> state) + state" where
  "copy_checkpoint pc temp_dir msg current_size total_size st =
     (case pc of
        None \<Rightarrow> Inr st
      | Some cb \<Rightarrow>
          if total_size = 0 then Inl (Raised ZeroDivisionError, st)
          else (case report cb msg (real_of_int current_size / real_of_int total_size * 100) st of
                  (True, st') \<Rightarrow> Inr st'
                | (False, st') \<Rightarrow>
                    Inl (OperationCancelled,
                         st'\<lparr>files := rmtree_ignore_errors (files st') temp_dir\<rparr>)))"

text \<open>
  Staging one blob that exists (lines 166-182 for a layer, lines 193-208 for the config, the
  same statements with other messages): a checkpoint, the copy into the working directory
  (not under \<^verbatim>\<open>try\<close>), the byte count, and a second checkpoint. The accumulator is
  \<^verbatim>\<open>(blob_files, current_size)\<close> and the state.
\<close>

definition stage_blob ::
  "manager \<Rightarrow> callback option \<Rightarrow> path \<Rightarrow> int \<Rightarrow> message \<Rightarrow> message \<Rightarrow> string \<Rightarrow> int
     \<Rightarrow> string list \<times> int \<times> state \<Rightarrow> (outcome \<times> state) + (string list \<times> int \<times> state)" where
  "stage_blob mgr pc temp_dir total_size before after blob_filename blob_size acc =
     (case acc of (blob_files, current_size, st) \<Rightarrow>
      case copy_checkpoint pc temp_dir before current_size total_size st of
        Inl r \<Rightarrow> Inl r
      | Inr st1 \<Rightarrow>
          (case copy2 (files st1) (joinpath (blobs_dir mgr) blob_filename)
                  (joinpath temp_dir blob_filename) of
             Inl e \<Rightarrow> Inl (Raised e, st1)
           | Inr fs2 \<Rightarrow>
               (let current_size' = current_size + blob_size in
                case copy_checkpoint pc temp_dir after current_size' total_size
                       (st1\<lparr>files := fs2\<rparr>) of
                  Inl r \<Rightarrow> Inl r
                | Inr st3 \<Rightarrow> Inr (blob_files @ [blob_filename], current_size', st3))))"

text \<open>The body of the layer loop (lines 158-184): a layer whose blob is absent ends the
  export, and nothing is removed.\<close>

definition export_layer ::
  "manager \<Rightarrow> callback option \<Rightarrow> path \<Rightarrow> int \<Rightarrow> blob_ref \<Rightarrow> string list \<times> int \<times> state
     \<Rightarrow> (outcome \<times> state) + (string list \<times> int \<times> state)" where
  "export_layer mgr pc temp_dir total_size layer acc =
     (let d = get_digest layer in
      if is_sha256 d then
        (let blob_filename = blob_filename_of d;
             blob_path = joinpath (blobs_dir mgr) blob_filename in
         if path_exists (files (snd (snd acc))) blob_path then
           (let size_mb = real_of_int (get_size layer) / (1024 ^ 2) in
            stage_blob mgr pc temp_dir total_size (Copying blob_filename size_mb)
              (Copied blob_filename) blob_filename (get_size layer) acc)
         else Inl (BlobFileNotFound blob_filename, snd (snd acc)))
      else Inr acc)"

fun export_layers ::
  "manager \<Rightarrow> callback option \<Rightarrow> path \<Rightarrow> int \<Rightarrow> blob_ref list \<Rightarrow> string list \<times> int \<times> state
     \<Rightarrow> (outcome \<times> state) + (string list \<times> int \<times> state)" where
  "export_layers mgr pc temp_dir total_size [] acc = Inr acc"
| "export_layers mgr pc temp_dir total_size (layer # rest) acc =
     (case export_layer mgr pc temp_dir total_size layer acc of
        Inl r \<Rightarrow> Inl r
      | Inr acc' \<Rightarrow> export_layers mgr pc temp_dir total_size rest acc')"

text \<open>The config blob (lines 186-208): a config blob that is absent is passed over.\<close>

definition export_config ::
  "manager \<Rightarrow> callback option \<Rightarrow> path \<Rightarrow> int \<Rightarrow> blob_ref \<Rightarrow> string list \<times> int \<times> state
     \<Rightarrow> (outcome \<times> state) + (string list \<times> int \<times> state)" where
  "export_config mgr pc temp_dir total_size cfg acc =
     (let config_digest = get_digest cfg in
      if is_sha256 config_digest then
        (let blob_filename = blob_filename_of config_digest;
             blob_path = joinpath (blobs_dir mgr) blob_filename in
         if path_exists (files (snd (snd acc))) blob_path then
           stage_blob mgr pc temp_dir total_size (CopyingConfig blob_filename)
             (CopiedConfig blob_filename) blob_filename (get_size cfg) acc
         else Inr acc)
      else Inr acc)"

text \<open>
  The archive is written under \<^verbatim>\<open>try\<close> (lines 217-240). \<^verbatim>\<open>tar.add\<close> reads the staged file
  and appends it to the archive; any exception runs the handler.
\<close>

definition tar_add ::
  "path \<Rightarrow> path \<Rightarrow> string \<Rightarrow> (string \<times> content) list \<times> filesystem
     \<Rightarrow> exn + ((string \<times> content) list \<times> filesystem)" where
  "tar_add output_path src arcname tar =
     (case tar of (members, fs) \<Rightarrow>
      case read_file fs src of
        Inl e \<Rightarrow> Inl e
      | Inr c \<Rightarrow>
          (case write_file fs output_path (Archive (members @ [(arcname, c)])) of
             Inl e \<Rightarrow> Inl e
           | Inr fs' \<Rightarrow> Inr (members @ [(arcname, c)], fs')))"

text \<open>\<^verbatim>\<open>if os.path.exists(output_path): os.unlink(output_path)\<close>.\<close>

definition remove_output :: "filesystem \<Rightarrow> path \<Rightarrow> exn + filesystem" where
  "remove_output fs output_path =
     (if path_exists fs output_path then unlink fs output_path else Inr fs)"

text \<open>The handler (lines 235-240); an exception of the handler itself leaves the engine.\<close>

definition archive_error :: "path \<Rightarrow> path \<Rightarrow> state \<Rightarrow> outcome \<times> state" where
  "archive_error temp_dir output_path st =
     (let fs1 = rmtree_ignore_errors (files st) temp_dir in
      case remove_output fs1 output_path of
        Inl e \<Rightarrow> (Raised e, st\<lparr>files := fs1\<rparr>)
      | Inr fs2 \<Rightarrow> (ErrorCreatingArchive, st\<lparr>files := fs2\<rparr>))"

text \<open>The loop over \<^verbatim>\<open>blob_files\<close> (lines 226-234). A cancellation removes the working
  directory and the archive; an exception of that removal is caught by the handler.\<close>

fun archive_blobs ::
  "callback option \<Rightarrow> path \<Rightarrow> path \<Rightarrow> string list \<Rightarrow> (string \<times> content) list \<Rightarrow> state
     \<Rightarrow> (outcome \<times> state) + state" where
  "archive_blobs pc temp_dir output_path [] members st = Inr st"
| "archive_blobs pc temp_dir output_path (blob_file # rest) members st =
     (case checkpoint pc (AddingToArchive blob_file) 95 st of
        (False, st1) \<Rightarrow>
          (let fs1 = rmtree_ignore_errors (files st1) temp_dir in
           case remove_output fs1 output_path of
             Inl e \<Rightarrow> Inl (archive_error temp_dir output_path (st1\<lparr>files := fs1\<rparr>))
           | Inr fs2 \<Rightarrow> Inl (OperationCancelled, st1\<lparr>files := fs2\<rparr>))
      | (True, st1) \<Rightarrow>
          (case tar_add output_path (joinpath temp_dir blob_file) blob_file
                  (members, files st1) of
             Inl e \<Rightarrow> Inl (archive_error temp_dir output_path st1)
           | Inr (members', fs2) \<Rightarrow>
               archive_blobs pc temp_dir output_path rest members' (st1\<lparr>files := fs2\<rparr>)))"

text \<open>Lines 210-248.\<close>

definition create_archive ::
  "callback option \<Rightarrow> path \<Rightarrow> path \<Rightarrow> string list \<Rightarrow> state \<Rightarrow> outcome \<times> state" where
  "create_archive pc temp_dir output_path blob_files st =
     (case checkpoint pc CreatingArchive 95 st of
        (False, st1) \<Rightarrow>
          (OperationCancelled, st1\<lparr>files := rmtree_ignore_errors (files st1) temp_dir\<rparr>)
      | (True, st1) \<Rightarrow>
          (case write_file (files st1) output_path (Archive []) of
             Inl e \<Rightarrow> archive_error temp_dir output_path st1
           | Inr fs2 \<Rightarrow>
          (case tar_add output_path (temp_dir @ [''metadata.json'']) ''metadata.json''
                  ([], fs2) of
             Inl e \<Rightarrow> archive_error temp_dir output_path (st1\<lparr>files := fs2\<rparr>)
           | Inr (members3, fs3) \<Rightarrow>
          (case tar_add output_path (temp_dir @ [''manifest'']) ''manifest''
                  (members3, fs3) of
             Inl e \<Rightarrow> archive_error temp_dir output_path (st1\<lparr>files := fs3\<rparr>)
           | Inr (members4, fs4) \<Rightarrow>
          (case archive_blobs pc temp_dir output_path blob_files members4
                  (st1\<lparr>files := fs4\<rparr>) of
             Inl r \<Rightarrow> r
           | Inr st5 \<Rightarrow>
               (let st6 = st5\<lparr>files := rmtree_ignore_errors (files st5) temp_dir\<rparr> in
                (NoError, snd (checkpoint pc ExportComplete 100 st6))))))))"

text \<open>Lines 124-141: the working directory, \<^verbatim>\<open>metadata.json\<close> and the manifest copy. None
  of these calls is under \<^verbatim>\<open>try\<close>.\<close>

definition stage_manifest ::
  "json_lib \<Rightarrow> path \<Rightarrow> path \<Rightarrow> string \<Rightarrow> string \<Rightarrow> filesystem \<Rightarrow> (exn \<times> filesystem) + filesystem" where
  "stage_manifest J temp_dir manifest_file model_name param_size fs =
     (case (if path_exists fs temp_dir then rmtree fs temp_dir else Inr fs) of
        Inl e \<Rightarrow> Inl (e, fs)
      | Inr fs1 \<Rightarrow>
     (case mkdir_parents False fs1 temp_dir of
        Inl e \<Rightarrow> Inl (e, fs1)
      | Inr fs2 \<Rightarrow>
     (case write_file fs2 (temp_dir @ [''metadata.json''])
             (Data (dump_metadata J model_name param_size (butlast manifest_file))) of
        Inl e \<Rightarrow> Inl (e, fs2)
      | Inr fs3 \<Rightarrow>
     (case copy2 fs3 manifest_file (temp_dir @ [''manifest'']) of
        Inl e \<Rightarrow> Inl (e, fs3)
      | Inr fs4 \<Rightarrow> Inr fs4))))"

definition export_model ::
  "json_lib \<Rightarrow> manager \<Rightarrow> path \<Rightarrow> string \<Rightarrow> string \<Rightarrow> path \<Rightarrow> callback option \<Rightarrow> state
     \<Rightarrow> outcome \<times> state" where
  "export_model J mgr manifest_file model_name param_size output_path pc st =
     (case json_load_manifest J (files st) manifest_file of
        None \<Rightarrow> (ErrorReadingManifest, st)
      | Some m \<Rightarrow>
          (let temp_dir = export_temp_dir model_name param_size in
           case stage_manifest J temp_dir manifest_file model_name param_size (files st) of
             Inl (e, fs') \<Rightarrow> (Raised e, st\<lparr>files := fs'\<rparr>)
           | Inr fs1 \<Rightarrow>
               (let total_size = total_size_of m in
                case export_layers mgr pc temp_dir total_size (get_layers m)
                       ([], 0, st\<lparr>files := fs1\<rparr>) of
                  Inl r \<Rightarrow> r
                | Inr acc \<Rightarrow>
                    (case export_config mgr pc temp_dir total_size (get_config m) acc of
                       Inl r \<Rightarrow> r
                     | Inr (blob_files, current_size, st2) \<Rightarrow>
                         create_archive pc temp_dir output_path blob_files st2))))"

subsection \<open>\<^verbatim>\<open>import_model\<close> (lines 250-419)\<close>













subsection \<open>\<^verbatim>\<open>delete_model\<close> (lines 421-506)\<close>






subsection \<open>\<^verbatim>\<open>list_models\<close> (lines 29-111)\<close>

record variant =
  parameter_size :: string
  size_gb :: real
  variant_path :: path
  manifest_file_path :: path







subsection \<open>The specification's reading of the name inference\<close>


subsection \<open>A small repository\<close>

text \<open>
  The concrete scenario of the specification, used to run the model: a manifest with a
  config blob of 4096 bytes and one layer of 1073741824 bytes, both blobs present, in a
  repository of the legacy shape under the home directory \<^verbatim>\<open>/h\<close>. The JSON library of the
  scenario reads the manifest from the bytes \<^verbatim>\<open>M\<close> and writes the metadata as
  \<^verbatim>\<open>name:tag\<close>.
\<close>

definition example_manifest :: manifest where
  "example_manifest =
     \<lparr>config = Some \<lparr>digest = Some ''sha256:bb'', size_bytes = Some 4096\<rparr>,
      layers = Some [\<lparr>digest = Some ''sha256:aa'', size_bytes = Some 1073741824\<rparr>]\<rparr>"

text \<open>A second manifest, read from the bytes \<^verbatim>\<open>N\<close>: the same layer, then a layer whose blob
  is not in the repository.\<close>

definition example_manifest_two_layers :: manifest where
  "example_manifest_two_layers =
     \<lparr>config = Some \<lparr>digest = Some ''sha256:bb'', size_bytes = Some 4096\<rparr>,
      layers = Some [\<lparr>digest = Some ''sha256:aa'', size_bytes = Some 1073741824\<rparr>,
                     \<lparr>digest = Some ''sha256:cc'', size_bytes = Some 10\<rparr>]\<rparr>"

definition example_json :: json_lib where
  "example_json =
     \<lparr>load_manifest = (\<lambda>s. if s = ''M'' then Some example_manifest
                            else if s = ''N'' then Some example_manifest_two_layers else None),
      load_metadata = (\<lambda>s. case split_on CHR '':'' s of
                              [a, b] \<Rightarrow> Some (Some a, Some b) | _ \<Rightarrow> None),
      dump_metadata = (\<lambda>n t p. n @ '':'' @ t)\<rparr>"

definition example_files :: filesystem where
  "example_files =
     [([''h''], Dir),
      ([''h'', ''.ollama''], Dir),
      ([''h'', ''.ollama'', ''manifests''], Dir),
      ([''h'', ''.ollama'', ''manifests'', ''registry.ollama.ai''], Dir),
      ([''h'', ''.ollama'', ''manifests'', ''registry.ollama.ai'', ''library''], Dir),
      ([''h'', ''.ollama'', ''manifests'', ''registry.ollama.ai'', ''library'', ''m''], Dir),
      ([''h'', ''.ollama'', ''manifests'', ''registry.ollama.ai'', ''library'', ''m'', ''t''],
         File (Data ''M'')),
      ([''h'', ''.ollama'', ''blobs''], Dir),
      ([''h'', ''.ollama'', ''blobs'', ''sha256-aa''], File (Data ''A'')),
      ([''h'', ''.ollama'', ''blobs'', ''sha256-bb''], File (Data ''B''))]"

definition example_manager :: manager where
  "example_manager = init_manager [''h''] example_files"

definition example_manifest_file :: path where
  "example_manifest_file = library_path example_manager @ [''m'', ''t'']"





text \<open>The export of the variant \<^verbatim>\<open>m:t\<close> of the small repository to \<^verbatim>\<open>/h/o\<close>.\<close>

definition example_export :: "callback option \<Rightarrow> filesystem \<Rightarrow> outcome \<times> state" where
  "example_export pc fs =
     export_model example_json example_manager example_manifest_file ''m'' ''t'' [''h'', ''o'']
       pc \<lparr>files = fs, reports = []\<rparr>"

text \<open>Callbacks: one that always continues, one that asks to stop at the notice of
  completion only, and one that asks to stop at the \<open>k\<close>-th report.\<close>

definition stop_at_report :: "nat \<Rightarrow> callback" where
  "stop_at_report k h = (length h \<noteq> k)"

definition always_continue :: callback where
  "always_continue h = True"

definition stop_at_completion :: callback where
  "stop_at_completion h = (case fst (last h) of ExportComplete \<Rightarrow> False | _ \<Rightarrow> True)"



subsection \<open>Vocabulary of the statements\<close>

text \<open>A file system is well formed when the parent of every entry is a directory.\<close>

definition wf_fs :: "filesystem \<Rightarrow> bool" where
  "wf_fs fs = (\<forall>(p, n) \<in> set fs. lookup fs (butlast p) = Some Dir)"

text \<open>\<open>answered pc h h'\<close>: the reports \<open>h'\<close> extend \<open>h\<close>, and the callback answered each report
  after \<open>h\<close> with the continue flag set. \<open>cancelled pc h h'\<close>: the last report of \<open>h'\<close> is the
  first after \<open>h\<close> that the callback answered with the continue flag cleared.\<close>

definition answered :: "callback option \<Rightarrow> (message \<times> real) list \<Rightarrow> (message \<times> real) list \<Rightarrow> bool" where
  "answered pc h h' =
     (prefix h h' \<and>
      (\<forall>cb. pc = Some cb \<longrightarrow> (\<forall>k. length h \<le> k \<and> k < length h' \<longrightarrow> cb (take (Suc k) h'))))"

definition cancelled :: "callback option \<Rightarrow> (message \<times> real) list \<Rightarrow> (message \<times> real) list \<Rightarrow> bool" where
  "cancelled pc h h' =
     (\<exists>cb hm m. pc = Some cb \<and> h' = hm @ [m] \<and> answered pc h hm \<and> \<not> cb h')"

text \<open>The working directory during the copy phase: a directory none of whose entries is a
  directory.\<close>

definition flat_dir :: "filesystem \<Rightarrow> path \<Rightarrow> bool" where
  "flat_dir fs T = (T \<noteq> [] \<and> lookup fs T = Some Dir \<and> (\<forall>x. lookup fs (T @ [x]) \<noteq> Some Dir))"

text \<open>The file names of the layer blobs that the layer loop stages (in manifest order), the
  name of the config blob when it is staged, and the file system after staging: each staged
  name under the working directory \<open>T\<close> holds what the blob of that name holds under the
  blobs directory \<open>B\<close>.\<close>

definition staged_names :: "blob_ref list \<Rightarrow> string list" where
  "staged_names ls = map blob_filename_of (filter is_sha256 (map get_digest ls))"

definition staged_lookup :: "filesystem \<Rightarrow> path \<Rightarrow> path \<Rightarrow> string list \<Rightarrow> path \<Rightarrow> node option" where
  "staged_lookup fs B T names q =
     (if \<exists>b\<in>set names. q = T @ [b] then lookup fs (B @ [last q]) else lookup fs q)"

definition blobs_are_files :: "filesystem \<Rightarrow> path \<Rightarrow> blob_ref list \<Rightarrow> bool" where
  "blobs_are_files fs B ls =
     (\<forall>l\<in>set ls. is_sha256 (get_digest l) \<longrightarrow>
        (\<exists>c. lookup fs (B @ [blob_filename_of (get_digest l)]) = Some (File c)))"

definition config_names :: "filesystem \<Rightarrow> path \<Rightarrow> blob_ref \<Rightarrow> string list" where
  "config_names fs B cfg =
     (if is_sha256 (get_digest cfg) \<and> lookup fs (B @ [blob_filename_of (get_digest cfg)]) \<noteq> None
      then [blob_filename_of (get_digest cfg)] else [])"

definition no_blob_dirs :: "filesystem \<Rightarrow> path \<Rightarrow> blob_ref list \<Rightarrow> bool" where
  "no_blob_dirs fs B ls =
     (\<forall>l\<in>set ls. is_sha256 (get_digest l) \<longrightarrow>
        lookup fs (B @ [blob_filename_of (get_digest l)]) \<noteq> Some Dir)"

text \<open>The conditions under which no call of the copy and archive phases raises: a
  callback comes with a non-zero total (the percentage divides by it), no referenced blob path
  is a directory, and the output path is outside the working directory and can be opened for
  writing.\<close>

definition export_inputs_ok ::
  "filesystem \<Rightarrow> path \<Rightarrow> path \<Rightarrow> path \<Rightarrow> callback option \<Rightarrow> manifest \<Rightarrow> bool" where
  "export_inputs_ok fs B T out pc m =
     ((pc \<noteq> None \<longrightarrow> total_size_of m \<noteq> 0) \<and>
      no_blob_dirs fs B (get_layers m) \<and> no_blob_dirs fs B [get_config m] \<and>
      \<not> prefix T out \<and>
      ((\<exists>old. lookup fs out = Some (File old)) \<or>
       (lookup fs out = None \<and> lookup fs (butlast out) = Some Dir)))"

definition archive_inputs_ok :: "filesystem \<Rightarrow> path \<Rightarrow> path \<Rightarrow> string list \<Rightarrow> bool" where
  "archive_inputs_ok fs T out bfs =
     (\<not> prefix T out \<and>
      ((\<exists>old. lookup fs out = Some (File old)) \<or>
       (lookup fs out = None \<and> lookup fs (butlast out) = Some Dir)) \<and>
      (\<exists>c. lookup fs (T @ [''metadata.json'']) = Some (File c)) \<and>
      (\<exists>c. lookup fs (T @ [''manifest'']) = Some (File c)) \<and>
      (\<forall>b\<in>set bfs. \<exists>c. lookup fs (joinpath T b) = Some (File c)))"



text \<open>\<open>has_variant models n v\<close>: the result of a scan lists the variant \<open>v\<close> under the model
  name \<open>n\<close>.\<close>

definition has_variant :: "(string \<times> variant list) list \<Rightarrow> string \<Rightarrow> variant \<Rightarrow> bool" where
  "has_variant models n v = (case map_of models n of None \<Rightarrow> False | Some vs \<Rightarrow> v \<in> set vs)"


section \<open>Properties\<close>

subsection \<open>Splitting strings\<close>









subsection \<open>The destination inferred from the archive's name\<close>




subsection \<open>The file system\<close>

declare mkdir_parents.simps [simp del]

lemma lookup_Nil [simp]: "lookup fs [] = Some Dir"
  by (simp add: lookup_def)

lemma joinpath_nonempty: "s \<noteq> [] \<Longrightarrow> joinpath p s = p @ [s]"
  by (simp add: joinpath_def)

lemma lookup_update:
  "p \<noteq> [] \<Longrightarrow> lookup (AList.update p n fs) = (lookup fs)(p \<mapsto> n)"
  by (rule ext) (simp add: lookup_def update_conv')

lemma lookup_delete:
  "p \<noteq> [] \<Longrightarrow> lookup (AList.delete p fs) = (lookup fs)(p := None)"
  by (rule ext) (simp add: lookup_def delete_conv')

lemma map_of_filter_key:
  "map_of (filter (\<lambda>(q, n). P q) fs) k = (if P k then map_of fs k else None)"
  by (induction fs) auto

lemma read_file_Inr: "read_file fs p = Inr c \<longleftrightarrow> lookup fs p = Some (File c)"
  by (auto simp: read_file_def split: option.splits node.splits)

lemma write_file_Inr:
  assumes "write_file fs p c = Inr fs'"
  shows "lookup fs' = (lookup fs)(p \<mapsto> File c)" and "p \<noteq> []" and "lookup fs p \<noteq> Some Dir"
proof -
  from assms show ne: "p \<noteq> []"
    by (auto simp: write_file_def split: option.splits node.splits)
  from assms have "fs' = AList.update p (File c) fs"
    by (auto simp: write_file_def split: option.splits node.splits)
  with ne show "lookup fs' = (lookup fs)(p \<mapsto> File c)" by (simp add: lookup_update)
  from assms show "lookup fs p \<noteq> Some Dir"
    by (auto simp: write_file_def split: option.splits node.splits)
qed

lemma write_file_ok:
  assumes "lookup fs p = Some (File old) \<or> (lookup fs p = None \<and> lookup fs (butlast p) = Some Dir)"
  shows "\<exists>fs'. write_file fs p c = Inr fs'"
  using assms by (auto simp: write_file_def)

lemma copy2_Inr:
  assumes "copy2 fs src dst = Inr fs'" and "lookup fs dst \<noteq> Some Dir"
  shows "\<exists>c. lookup fs src = Some (File c) \<and> lookup fs' = (lookup fs)(dst \<mapsto> File c)"
  using assms
  by (auto simp: copy2_def is_dir_def Let_def read_file_Inr split: if_splits sum.splits
           dest: write_file_Inr(1))

lemma copy2_ok:
  assumes "lookup fs src = Some (File c)" and "src \<noteq> dst"
    and "lookup fs dst = Some (File old) \<or> (lookup fs dst = None \<and> lookup fs (butlast dst) = Some Dir)"
  shows "\<exists>fs'. copy2 fs src dst = Inr fs'"
proof -
  from assms(3) have nd: "\<not> is_dir fs dst" by (auto simp: is_dir_def)
  from assms(1) have r: "read_file fs src = Inr c" by (simp add: read_file_Inr)
  from write_file_ok[OF assms(3)] obtain fs' where "write_file fs dst c = Inr fs'" by blast
  with nd r assms(2) show ?thesis by (simp add: copy2_def)
qed

lemma rmtree_Inr:
  assumes "rmtree fs d = Inr fs'" and "d \<noteq> []"
  shows "lookup fs' q = (if prefix d q then None else lookup fs q)" and "lookup fs d = Some Dir"
proof -
  from assms(1) have f: "fs' = filter (\<lambda>(q, n). \<not> prefix d q) fs" and "lookup fs d = Some Dir"
    by (auto simp: rmtree_def split: option.splits node.splits)
  then show "lookup fs d = Some Dir" by simp
  show "lookup fs' q = (if prefix d q then None else lookup fs q)"
    using assms(2) unfolding f lookup_def by (auto simp: map_of_filter_key)
qed


lemma lookup_rmtree_ignore_errors:
  "d \<noteq> [] \<Longrightarrow> lookup (rmtree_ignore_errors fs d) q =
     (if lookup fs d = Some Dir \<and> prefix d q then None else lookup fs q)"
  by (auto simp: rmtree_ignore_errors_def rmtree_Inr(1) split: sum.splits)
     (auto simp: rmtree_def split: option.splits node.splits)


lemma unlink_ok: "lookup fs p = Some (File c) \<Longrightarrow> \<exists>fs'. unlink fs p = Inr fs'"
  by (simp add: unlink_def)

lemma os_mkdir_Inr:
  assumes "os_mkdir fs p = Inr fs'"
  shows "lookup fs' = (lookup fs)(p \<mapsto> Dir)" and "lookup fs p = None"
    and "lookup fs (butlast p) = Some Dir"
proof -
  from assms have f: "fs' = AList.update p Dir fs" and n: "lookup fs p = None"
    and "lookup fs (butlast p) = Some Dir"
    by (auto simp: os_mkdir_def split: option.splits node.splits)
  then show "lookup fs p = None" and "lookup fs (butlast p) = Some Dir" by simp_all
  from n have "p \<noteq> []" by auto
  with f show "lookup fs' = (lookup fs)(p \<mapsto> Dir)" by (simp add: lookup_update)
qed

lemma os_mkdir_Inl:
  "os_mkdir fs p = Inl e \<Longrightarrow>
     (e = FileExistsError \<and> lookup fs p \<noteq> None)
   \<or> (e = FileNotFoundError \<and> lookup fs p = None \<and> lookup fs (butlast p) = None)
   \<or> (e = NotADirectoryError \<and> lookup fs p = None \<and> (\<exists>c. lookup fs (butlast p) = Some (File c)))"
  by (auto simp: os_mkdir_def split: option.splits node.splits)

text \<open>What a successful mkdir_parents does: the path is a directory afterwards, and every
  other path is as before, or is a missing ancestor that is now a directory.\<close>

lemma mkdir_parents_Inr:
  "mkdir_parents ok fs p = Inr fs' \<Longrightarrow>
     lookup fs' p = Some Dir \<and>
     (\<forall>q. lookup fs' q = lookup fs q \<or> (lookup fs q = None \<and> prefix q p \<and> lookup fs' q = Some Dir))"
proof (induction ok fs p arbitrary: fs' rule: mkdir_parents.induct)
  case (1 exist_ok fs p)
  show ?case
  proof (cases "os_mkdir fs p")
    case (Inr fs1)
    with "1.prems" have "fs' = fs1" by (subst (asm) mkdir_parents.simps) simp
    with os_mkdir_Inr[OF Inr] show ?thesis by auto
  next
    case (Inl e)
    show ?thesis
    proof (cases "e = FileNotFoundError")
      case True
      note prems' = "1.prems"[unfolded mkdir_parents.simps[of exist_ok fs p]]
      with Inl True have pne: "p \<noteq> []" by (auto split: if_splits)
      from Inl True prems' pne obtain fs1 where
        r: "mkdir_parents True fs (butlast p) = Inr fs1" and
        m: "mkdir_no_parents exist_ok fs1 p = Inr fs'"
        by (auto split: sum.splits)
      from "1.IH"[OF Inl True pne r] have
        ih1: "lookup fs1 (butlast p) = Some Dir" and
        ih2: "\<forall>q. lookup fs1 q = lookup fs q \<or>
               (lookup fs q = None \<and> prefix q (butlast p) \<and> lookup fs1 q = Some Dir)"
        by auto
      from os_mkdir_Inl[OF Inl] True have pn: "lookup fs p = None" by auto
      have "\<not> prefix p (butlast p)" using pne
        by (metis length_butlast prefix_length_le diff_less length_greater_0_conv
              less_numeral_extra(1) not_less)
      with ih2 pn have pn1: "lookup fs1 p = None" by metis
      with ih1 have "os_mkdir fs1 p = Inr (AList.update p Dir fs1)"
        by (simp add: os_mkdir_def)
      with m have f': "os_mkdir fs1 p = Inr fs'" by (simp add: mkdir_no_parents_def)
      have pb: "prefix q (butlast p) \<Longrightarrow> prefix q p" for q
        by (metis butlast_conv_take prefix_order.trans take_is_prefix)
      from os_mkdir_Inr(1)[OF f'] ih2 pn show ?thesis
        by (auto simp: fun_upd_def dest: pb)
    next
      case False
      with Inl "1.prems"[unfolded mkdir_parents.simps[of exist_ok fs p]]
      have "fs' = fs" and "is_dir fs p" by (auto split: if_splits)
      then show ?thesis by (simp add: is_dir_def)
    qed
  qed
qed

lemma is_sha256_blob_filename:
  "is_sha256 d \<Longrightarrow> \<exists>r. blob_filename_of d = ''sha256-'' @ r"
  by (auto simp: is_sha256_def startswith_def prefix_def blob_filename_of_def replace_char_def)

lemma blob_filename_nonempty: "is_sha256 d \<Longrightarrow> blob_filename_of d \<noteq> []"
  using is_sha256_blob_filename by fastforce

lemma blob_filename_not_manifest:
  "is_sha256 d \<Longrightarrow> blob_filename_of d \<noteq> ''manifest'' \<and> blob_filename_of d \<noteq> ''metadata.json''"
  using is_sha256_blob_filename by fastforce

subsection \<open>Answers of the callback\<close>

lemma answered_refl [simp]: "answered pc h h"
  by (auto simp: answered_def)

lemma answered_None [simp]: "answered None h h' = prefix h h'"
  by (simp add: answered_def)

lemma answered_snoc:
  assumes "answered pc h h1" and "\<And>cb. pc = Some cb \<Longrightarrow> cb (h1 @ [m])"
  shows "answered pc h (h1 @ [m])"
  unfolding answered_def
proof (intro conjI allI impI)
  from assms(1) show "prefix h (h1 @ [m])" by (auto simp: answered_def prefix_def)
next
  fix cb k assume pc: "pc = Some cb" and k: "length h \<le> k \<and> k < length (h1 @ [m])"
  show "cb (take (Suc k) (h1 @ [m]))"
  proof (cases "k < length h1")
    case True
    with assms(1) pc k show ?thesis by (simp add: answered_def)
  next
    case False
    with k have "take (Suc k) (h1 @ [m]) = h1 @ [m]" by simp
    with assms(2)[OF pc] show ?thesis by simp
  qed
qed

lemma answered_trans:
  assumes "answered pc h h1" and "answered pc h1 h2"
  shows "answered pc h h2"
  unfolding answered_def
proof (intro conjI allI impI)
  from assms show "prefix h h2" by (auto simp: answered_def)
next
  fix cb k assume pc: "pc = Some cb" and k: "length h \<le> k \<and> k < length h2"
  from assms(2) obtain r where h2: "h2 = h1 @ r" by (auto simp: answered_def prefix_def)
  show "cb (take (Suc k) h2)"
  proof (cases "k < length h1")
    case True
    then have "take (Suc k) h2 = take (Suc k) h1" by (simp add: h2)
    with assms(1) pc k True show ?thesis by (simp add: answered_def)
  next
    case False
    with assms(2) pc k show ?thesis by (simp add: answered_def)
  qed
qed

lemma cancelled_trans: "answered pc h h1 \<Longrightarrow> cancelled pc h1 h2 \<Longrightarrow> cancelled pc h h2"
  unfolding cancelled_def using answered_trans by blast

lemma cancelled_snoc: "pc = Some cb \<Longrightarrow> \<not> cb (h @ [m]) \<Longrightarrow> cancelled pc h (h @ [m])"
  by (auto simp: cancelled_def)

text \<open>A run that was cancelled holds an answer that is false; a run all of whose reports
  were answered true holds none.\<close>

lemma answered_all_true:
  "answered (Some cb) h h' \<Longrightarrow> length h \<le> k \<Longrightarrow> k < length h' \<Longrightarrow> cb (take (Suc k) h')"
  by (simp add: answered_def)

lemma report_cases:
  "report cb msg pct st = (b, st') \<Longrightarrow>
     files st' = files st \<and> reports st' = reports st @ [(msg, pct)] \<and> b = cb (reports st')"
  by (auto simp: report_def Let_def)

lemma checkpoint_cases:
  assumes "checkpoint pc msg pct st = (b, st')"
  shows "files st' = files st"
    and "b \<Longrightarrow> answered pc (reports st) (reports st')"
    and "\<not> b \<Longrightarrow> cancelled pc (reports st) (reports st')"
proof -
  show "files st' = files st" using assms
    by (auto simp: checkpoint_def dest: report_cases split: option.splits)
  show "answered pc (reports st) (reports st')" if b
  proof (cases pc)
    case None
    with assms show ?thesis by (simp add: checkpoint_def)
  next
    case (Some cb)
    with assms have "report cb msg pct st = (b, st')" by (simp add: checkpoint_def)
    from report_cases[OF this] that Some show ?thesis
      by (auto intro!: answered_snoc)
  qed
  show "cancelled pc (reports st) (reports st')" if "\<not> b"
  proof (cases pc)
    case None
    with assms that show ?thesis by (simp add: checkpoint_def)
  next
    case (Some cb)
    with assms have "report cb msg pct st = (b, st')" by (simp add: checkpoint_def)
    from report_cases[OF this] that Some show ?thesis
      by (auto intro!: cancelled_snoc)
  qed
qed

lemma copy_checkpoint_Inr:
  assumes "copy_checkpoint pc T msg cur tot st = Inr st'"
  shows "files st' = files st" and "answered pc (reports st) (reports st')"
    and "pc \<noteq> None \<Longrightarrow> tot \<noteq> 0"
proof -
  show "files st' = files st" using assms
    by (auto simp: copy_checkpoint_def dest: report_cases split: option.splits if_splits prod.splits bool.splits)
  show "tot \<noteq> 0" if "pc \<noteq> None" using assms that
    by (auto simp: copy_checkpoint_def split: option.splits if_splits)
  show "answered pc (reports st) (reports st')"
  proof (cases pc)
    case None
    with assms show ?thesis by (simp add: copy_checkpoint_def)
  next
    case (Some cb)
    with assms have "report cb msg (real_of_int cur / real_of_int tot * 100) st = (True, st')"
      by (auto simp: copy_checkpoint_def split: if_splits prod.splits bool.splits)
    from report_cases[OF this] Some show ?thesis
      by (auto intro!: answered_snoc)
  qed
qed

lemma copy_checkpoint_Inl:
  assumes "copy_checkpoint pc T msg cur tot st = Inl (r, st')"
  shows "(r = Raised ZeroDivisionError \<and> pc \<noteq> None \<and> tot = 0 \<and> st' = st) \<or>
         (r = OperationCancelled \<and> files st' = rmtree_ignore_errors (files st) T \<and>
          cancelled pc (reports st) (reports st'))"
proof (cases pc)
  case None
  with assms show ?thesis by (simp add: copy_checkpoint_def)
next
  case (Some cb)
  show ?thesis
  proof (cases "tot = 0")
    case True
    with Some assms show ?thesis by (simp add: copy_checkpoint_def)
  next
    case False
    obtain b st1 where rp: "report cb msg (real_of_int cur / real_of_int tot * 100) st = (b, st1)"
      by (cases "report cb msg (real_of_int cur / real_of_int tot * 100) st")
    with assms Some False have b: "\<not> b" and r: "r = OperationCancelled"
      and st': "st' = st1\<lparr>files := rmtree_ignore_errors (files st1) T\<rparr>"
      by (auto simp: copy_checkpoint_def split: bool.splits)
    from report_cases[OF rp] b Some st' r show ?thesis
      by (auto intro!: cancelled_snoc)
  qed
qed

lemma copy_checkpoint_continue:
  assumes "\<And>cb. pc = Some cb \<Longrightarrow> tot \<noteq> 0 \<and> (\<forall>h. cb h)"
  shows "\<exists>st'. copy_checkpoint pc T msg cur tot st = Inr st'"
  using assms by (cases pc) (auto simp: copy_checkpoint_def report_def Let_def)

lemma flat_dir_upd:
  "flat_dir fs T \<Longrightarrow> lookup fs' = (lookup fs)(T @ [b] \<mapsto> File c) \<Longrightarrow> flat_dir fs' T"
  by (auto simp: flat_dir_def)

text \<open>Staging one blob: the complete case analysis.\<close>

lemma stage_blob_result:
  assumes run: "stage_blob mgr pc T tot before after b sz (bf, cur, st) = res"
    and flat: "flat_dir (files st) T"
    and BT: "blobs_dir mgr \<noteq> T"
    and bne: "b \<noteq> []"
  shows
   "(\<exists>c st'. lookup (files st) (blobs_dir mgr @ [b]) = Some (File c) \<and>
         res = Inr (bf @ [b], cur + sz, st') \<and>
         lookup (files st') = (lookup (files st))(T @ [b] \<mapsto> File c) \<and>
         answered pc (reports st) (reports st') \<and> (pc \<noteq> None \<longrightarrow> tot \<noteq> 0))
  \<or> (\<exists>st'. res = Inl (OperationCancelled, st') \<and>
         (\<forall>q. lookup (files st') q = (if prefix T q then None else lookup (files st) q)) \<and>
         cancelled pc (reports st) (reports st'))
  \<or> (\<exists>e st'. res = Inl (Raised e, st') \<and> answered pc (reports st) (reports st') \<and>
         ((pc \<noteq> None \<and> tot = 0) \<or>
          (\<forall>c. lookup (files st) (blobs_dir mgr @ [b]) \<noteq> Some (File c))))"
proof -
  define src where "src = blobs_dir mgr @ [b]"
  define dst where "dst = T @ [b]"
  have sd: "src \<noteq> dst" using BT by (simp add: src_def dst_def)
  have Tne: "T \<noteq> []" and Td: "lookup (files st) T = Some Dir"
    and dnd: "lookup (files st) dst \<noteq> Some Dir"
    using flat by (auto simp: flat_dir_def dst_def)
  note defs = stage_blob_def joinpath_nonempty[OF bne] src_def[symmetric] dst_def[symmetric]
  show ?thesis
  proof (cases "copy_checkpoint pc T before cur tot st")
    case (Inl r)
    with run have res: "res = Inl r" by (simp add: defs)
    obtain o1 st' where r: "r = (o1, st')" by (cases r)
    from copy_checkpoint_Inl[OF Inl[unfolded r]] show ?thesis
    proof
      assume "o1 = Raised ZeroDivisionError \<and> pc \<noteq> None \<and> tot = 0 \<and> st' = st"
      with res r show ?thesis by auto
    next
      assume c: "o1 = OperationCancelled \<and> files st' = rmtree_ignore_errors (files st) T \<and>
          cancelled pc (reports st) (reports st')"
      then have "\<forall>q. lookup (files st') q = (if prefix T q then None else lookup (files st) q)"
        using Tne Td by (simp add: lookup_rmtree_ignore_errors)
      with c res r show ?thesis by auto
    qed
  next
    case (Inr st1)
    note cc1 = copy_checkpoint_Inr[OF Inr]
    show ?thesis
    proof (cases "copy2 (files st1) src dst")
      case (Inl e)
      with run Inr have res: "res = Inl (Raised e, st1)" by (simp add: defs)
      have "lookup (files st) src \<noteq> Some (File c)" for c
      proof
        assume c: "lookup (files st) src = Some (File c)"
        have "lookup (files st) dst = None \<or> (\<exists>old. lookup (files st) dst = Some (File old))"
          using dnd by (cases "lookup (files st) dst") (auto, metis node.exhaust)
        then have "\<exists>fs'. copy2 (files st) src dst = Inr fs'"
          using copy2_ok[OF c sd] Td by (auto simp: dst_def)
        with Inl cc1(1) show False by simp
      qed
      with res cc1 show ?thesis by (auto simp: src_def)
    next
      case c2: (Inr fs2)
      from copy2_Inr[OF c2[unfolded cc1(1)] dnd] obtain c where
        c: "lookup (files st) src = Some (File c)" and
        l2: "lookup fs2 = (lookup (files st))(dst \<mapsto> File c)" by blast
      show ?thesis
      proof (cases "copy_checkpoint pc T after (cur + sz) tot (st1\<lparr>files := fs2\<rparr>)")
        case (Inl r)
        with run Inr c2 have res: "res = Inl r" by (simp add: defs Let_def)
        obtain o1 st' where r: "r = (o1, st')" by (cases r)
        from copy_checkpoint_Inl[OF Inl[unfolded r]] show ?thesis
        proof
          assume "o1 = Raised ZeroDivisionError \<and> pc \<noteq> None \<and> tot = 0 \<and> st' = st1\<lparr>files := fs2\<rparr>"
          with res r cc1 show ?thesis by auto
        next
          assume cc: "o1 = OperationCancelled \<and>
              files st' = rmtree_ignore_errors (files (st1\<lparr>files := fs2\<rparr>)) T \<and>
              cancelled pc (reports (st1\<lparr>files := fs2\<rparr>)) (reports st')"
          have Td2: "lookup fs2 T = Some Dir" using l2 Td by (simp add: dst_def)
          have fl: "\<forall>q. lookup (files st') q = (if prefix T q then None else lookup (files st) q)"
            using cc Tne Td2 l2 by (auto simp add: lookup_rmtree_ignore_errors dst_def)
          have "cancelled pc (reports st) (reports st')"
            using cc cc1(2) by (auto intro: cancelled_trans)
          with cc res r fl show ?thesis by auto
        qed
      next
        case cc2: (Inr st3)
        with run Inr c2 have res: "res = Inr (bf @ [b], cur + sz, st3)"
          by (simp add: defs Let_def)
        note c3 = copy_checkpoint_Inr[OF cc2]
        then have f3: "lookup (files st3) = (lookup (files st))(dst \<mapsto> File c)"
          using l2 by simp
        have "answered pc (reports st) (reports st3)"
          using cc1(2) c3(2) by (auto intro: answered_trans)
        with res c f3 cc1(3) show ?thesis by (auto simp: src_def dst_def)
      qed
    qed
  qed
qed

lemma staged_names_Nil [simp]: "staged_names [] = []"
  by (simp add: staged_names_def)

lemma staged_names_Cons:
  "staged_names (l # ls) =
     (if is_sha256 (get_digest l) then blob_filename_of (get_digest l) # staged_names ls
      else staged_names ls)"
  by (simp add: staged_names_def)

lemma staged_names_append [simp]:
  "staged_names (xs @ ys) = staged_names xs @ staged_names ys"
  by (simp add: staged_names_def)

lemma staged_lookup_Nil [simp]: "staged_lookup fs B T [] q = lookup fs q"
  by (simp add: staged_lookup_def)

lemma blobs_are_files_Nil [simp]: "blobs_are_files fs B []"
  by (simp add: blobs_are_files_def)

lemma staged_lookup_step:
  assumes l1: "lookup fs1 = (lookup fs)(T @ [b] \<mapsto> File c)"
    and c: "lookup fs (B @ [b]) = Some (File c)" and BT: "B \<noteq> T"
  shows "staged_lookup fs1 B T names q = staged_lookup fs B T (b # names) q"
proof -
  have "lookup fs1 (B @ [x]) = lookup fs (B @ [x])" for x
    using l1 BT by simp
  then show ?thesis using l1 c
    by (auto simp: staged_lookup_def)
qed

lemma blobs_are_files_step:
  assumes l1: "lookup fs1 = (lookup fs)(T @ [b] \<mapsto> File c)" and BT: "B \<noteq> T"
  shows "blobs_are_files fs1 B ls = blobs_are_files fs B ls"
proof -
  have "lookup fs1 (B @ [x]) = lookup fs (B @ [x])" for x
    using l1 BT by simp
  then show ?thesis by (simp add: blobs_are_files_def)
qed

lemma export_layer_skip:
  "\<not> is_sha256 (get_digest l) \<Longrightarrow> export_layer mgr pc T tot l acc = Inr acc"
  by (simp add: export_layer_def)

lemma export_layer_missing:
  "is_sha256 (get_digest l) \<Longrightarrow>
   lookup (files st) (blobs_dir mgr @ [blob_filename_of (get_digest l)]) = None \<Longrightarrow>
   export_layer mgr pc T tot l (bf, cur, st) =
     Inl (BlobFileNotFound (blob_filename_of (get_digest l)), st)"
  by (simp add: export_layer_def joinpath_nonempty blob_filename_nonempty path_exists_def)

lemma export_layer_present:
  "is_sha256 (get_digest l) \<Longrightarrow>
   lookup (files st) (blobs_dir mgr @ [blob_filename_of (get_digest l)]) \<noteq> None \<Longrightarrow>
   export_layer mgr pc T tot l (bf, cur, st) =
     stage_blob mgr pc T tot
       (Copying (blob_filename_of (get_digest l)) (real_of_int (get_size l) / (1024 ^ 2)))
       (Copied (blob_filename_of (get_digest l))) (blob_filename_of (get_digest l))
       (get_size l) (bf, cur, st)"
  by (simp add: export_layer_def joinpath_nonempty blob_filename_nonempty path_exists_def Let_def)

text \<open>The layer loop: the complete case analysis.\<close>

lemma export_layers_result:
  assumes run: "export_layers mgr pc T tot ls (bf, cur, st) = res"
    and flat: "flat_dir (files st) T"
    and BT: "blobs_dir mgr \<noteq> T"
  shows
   "(\<exists>cur' st'. res = Inr (bf @ staged_names ls, cur', st') \<and>
        blobs_are_files (files st) (blobs_dir mgr) ls \<and>
        (\<forall>q. lookup (files st') q = staged_lookup (files st) (blobs_dir mgr) T (staged_names ls) q) \<and>
        answered pc (reports st) (reports st'))
  \<or> (\<exists>pre l post st'. ls = pre @ l # post \<and> is_sha256 (get_digest l) \<and>
        lookup (files st) (blobs_dir mgr @ [blob_filename_of (get_digest l)]) = None \<and>
        res = Inl (BlobFileNotFound (blob_filename_of (get_digest l)), st') \<and>
        blobs_are_files (files st) (blobs_dir mgr) pre \<and>
        (\<forall>q. lookup (files st') q = staged_lookup (files st) (blobs_dir mgr) T (staged_names pre) q) \<and>
        answered pc (reports st) (reports st'))
  \<or> (\<exists>st'. res = Inl (OperationCancelled, st') \<and>
        (\<forall>q. lookup (files st') q = (if prefix T q then None else lookup (files st) q)) \<and>
        cancelled pc (reports st) (reports st'))
  \<or> (\<exists>e st'. res = Inl (Raised e, st') \<and> answered pc (reports st) (reports st') \<and>
        ((pc \<noteq> None \<and> tot = 0) \<or> \<not> no_blob_dirs (files st) (blobs_dir mgr) ls))"
  using run flat
proof (induction ls arbitrary: bf cur st)
  case Nil
  then show ?case by auto
next
  case (Cons l ls)
  let ?B = "blobs_dir mgr"
  let ?b = "blob_filename_of (get_digest l)"
  show ?case
  proof (cases "is_sha256 (get_digest l)")
    case False
    with Cons.prems have "export_layers mgr pc T tot ls (bf, cur, st) = res"
      by (simp add: export_layer_skip)
    from Cons.IH[OF this Cons.prems(2)] False show ?thesis
      apply (elim disjE exE conjE)
         apply (rule disjI1)
         apply (simp add: staged_names_Cons blobs_are_files_def)
        apply (rule disjI2, rule disjI1)
      subgoal for pre l' post st'
        apply (rule exI[of _ "l # pre"])
        by (auto simp: staged_names_Cons blobs_are_files_def)
       apply (rule disjI2, rule disjI2, rule disjI1)
       apply simp
      apply (rule disjI2, rule disjI2, rule disjI2)
      by (auto simp: blobs_are_files_def no_blob_dirs_def)
  next
    case sha: True
    show ?thesis
    proof (cases "lookup (files st) (?B @ [?b])")
      case None
      with Cons.prems sha have "res = Inl (BlobFileNotFound ?b, st)"
        by (simp add: export_layer_missing)
      with sha None show ?thesis
        apply -
        apply (rule disjI2, rule disjI1)
        apply (rule exI[of _ "[]"])
        by auto
    next
      case (Some n)
      define r1 where "r1 = stage_blob mgr pc T tot
       (Copying ?b (real_of_int (get_size l) / (1024 ^ 2))) (Copied ?b) ?b (get_size l) (bf, cur, st)"
      have el: "export_layer mgr pc T tot l (bf, cur, st) = r1"
        using sha Some by (simp add: export_layer_present r1_def)
      from stage_blob_result[OF r1_def[symmetric] Cons.prems(2) BT blob_filename_nonempty[OF sha]]
      consider
        (ok) c st1 where "lookup (files st) (?B @ [?b]) = Some (File c)"
          "r1 = Inr (bf @ [?b], cur + get_size l, st1)"
          "lookup (files st1) = (lookup (files st))(T @ [?b] \<mapsto> File c)"
          "answered pc (reports st) (reports st1)"
      | (cancel) st' where "r1 = Inl (OperationCancelled, st')"
          "\<forall>q. lookup (files st') q = (if prefix T q then None else lookup (files st) q)"
          "cancelled pc (reports st) (reports st')"
      | (raised) e st' where "r1 = Inl (Raised e, st')" "answered pc (reports st) (reports st')"
          "(pc \<noteq> None \<and> tot = 0) \<or> (\<forall>c. lookup (files st) (?B @ [?b]) \<noteq> Some (File c))"
        by blast
      then show ?thesis
      proof cases
        case cancel
        with Cons.prems el have "res = Inl (OperationCancelled, st')" by simp
        with cancel show ?thesis by blast
      next
        case raised
        with Cons.prems el have "res = Inl (Raised e, st')" by simp
        moreover have "(\<forall>c. lookup (files st) (?B @ [?b]) \<noteq> Some (File c)) \<Longrightarrow>
           \<not> no_blob_dirs (files st) ?B (l # ls)"
          using sha Some by (cases n) (auto simp: no_blob_dirs_def)
        ultimately show ?thesis using raised by blast
      next
        case ok
        with Cons.prems el have run': "export_layers mgr pc T tot ls (bf @ [?b], cur + get_size l, st1) = res"
          by simp
        have flat': "flat_dir (files st1) T" using flat_dir_upd[OF Cons.prems(2) ok(3)] .
        note sl = staged_lookup_step[OF ok(3) ok(1) BT]
        note bf = blobs_are_files_step[OF ok(3) BT]
        have hd: "blobs_are_files (files st) ?B (l # xs) = blobs_are_files (files st) ?B xs" for xs
          using ok(1) by (auto simp: blobs_are_files_def)
        have nd: "no_blob_dirs (files st) ?B (l # ls) \<Longrightarrow> no_blob_dirs (files st1) ?B ls"
          using ok(3) BT by (auto simp: no_blob_dirs_def)
        have pf: "prefix T q \<Longrightarrow> q \<noteq> T @ [?b] \<Longrightarrow> lookup (files st1) q = lookup (files st) q" for q
          using ok(3) by simp
        from Cons.IH[OF run' flat'] consider
          (a) cur' st' where "res = Inr ((bf @ [?b]) @ staged_names ls, cur', st')"
            "blobs_are_files (files st1) ?B ls"
            "\<forall>q. lookup (files st') q = staged_lookup (files st1) ?B T (staged_names ls) q"
            "answered pc (reports st1) (reports st')"
        | (b) pre l' post st' where "ls = pre @ l' # post" "is_sha256 (get_digest l')"
            "lookup (files st1) (?B @ [blob_filename_of (get_digest l')]) = None"
            "res = Inl (BlobFileNotFound (blob_filename_of (get_digest l')), st')"
            "blobs_are_files (files st1) ?B pre"
            "\<forall>q. lookup (files st') q = staged_lookup (files st1) ?B T (staged_names pre) q"
            "answered pc (reports st1) (reports st')"
        | (c) st' where "res = Inl (OperationCancelled, st')"
            "\<forall>q. lookup (files st') q = (if prefix T q then None else lookup (files st1) q)"
            "cancelled pc (reports st1) (reports st')"
        | (d) e st' where "res = Inl (Raised e, st')" "answered pc (reports st1) (reports st')"
            "pc \<noteq> None \<and> tot = 0 \<or> \<not> no_blob_dirs (files st1) ?B ls"
          by blast
        then show ?thesis
        proof cases
          case a
          then show ?thesis
            using sha ok(4)
            apply -
            apply (rule disjI1)
            by (auto simp: staged_names_Cons sl bf hd intro: answered_trans)
        next
          case b
          then show ?thesis
            using sha ok(4) ok(3) BT
            apply -
            apply (rule disjI2, rule disjI1)
            apply (rule exI[of _ "l # pre"])
            apply (rule exI[of _ "l'"])
            apply (rule exI[of _ "post"])
            by (auto simp: staged_names_Cons sl bf hd intro: answered_trans)
        next
          case c
          then show ?thesis
            using ok(4) ok(3)
            apply -
            apply (rule disjI2, rule disjI2, rule disjI1)
            by (auto intro: cancelled_trans)
        next
          case d
          then show ?thesis
            using ok(4)
            apply -
            apply (rule disjI2, rule disjI2, rule disjI2)
            by (auto simp: bf hd intro: answered_trans dest: nd)
        qed
      qed
    qed
  qed
qed

lemma export_config_result:
  assumes run: "export_config mgr pc T tot cfg (bf, cur, st) = res"
    and flat: "flat_dir (files st) T"
    and BT: "blobs_dir mgr \<noteq> T"
  shows
   "(\<exists>cur' st'. res = Inr (bf @ config_names (files st) (blobs_dir mgr) cfg, cur', st') \<and>
        (\<forall>b\<in>set (config_names (files st) (blobs_dir mgr) cfg).
            \<exists>c. lookup (files st) (blobs_dir mgr @ [b]) = Some (File c)) \<and>
        (\<forall>q. lookup (files st') q =
            staged_lookup (files st) (blobs_dir mgr) T (config_names (files st) (blobs_dir mgr) cfg) q) \<and>
        answered pc (reports st) (reports st'))
  \<or> (\<exists>st'. res = Inl (OperationCancelled, st') \<and>
        (\<forall>q. lookup (files st') q = (if prefix T q then None else lookup (files st) q)) \<and>
        cancelled pc (reports st) (reports st'))
  \<or> (\<exists>e st'. res = Inl (Raised e, st') \<and> answered pc (reports st) (reports st') \<and>
        ((pc \<noteq> None \<and> tot = 0) \<or>
         (is_sha256 (get_digest cfg) \<and>
          lookup (files st) (blobs_dir mgr @ [blob_filename_of (get_digest cfg)]) = Some Dir)))"
proof -
  let ?B = "blobs_dir mgr"
  let ?b = "blob_filename_of (get_digest cfg)"
  show ?thesis
  proof (cases "is_sha256 (get_digest cfg) \<and> lookup (files st) (?B @ [?b]) \<noteq> None")
    case False
    then have "res = Inr (bf, cur, st)" using run
      by (auto simp: export_config_def Let_def joinpath_nonempty blob_filename_nonempty path_exists_def)
    moreover have "config_names (files st) ?B cfg = []" using False
      by (auto simp: config_names_def)
    ultimately show ?thesis by auto
  next
    case True
    then have cn: "config_names (files st) ?B cfg = [?b]" by (simp add: config_names_def)
    define r1 where "r1 = stage_blob mgr pc T tot (CopyingConfig ?b) (CopiedConfig ?b) ?b
       (get_size cfg) (bf, cur, st)"
    have el: "res = r1" using True run
      by (auto simp: export_config_def Let_def joinpath_nonempty blob_filename_nonempty
            path_exists_def r1_def)
    from True have bne: "?b \<noteq> []" by (simp add: blob_filename_nonempty)
    from stage_blob_result[OF r1_def[symmetric] flat BT bne]
    consider
      (ok) c st1 where "lookup (files st) (?B @ [?b]) = Some (File c)"
        "r1 = Inr (bf @ [?b], cur + get_size cfg, st1)"
        "lookup (files st1) = (lookup (files st))(T @ [?b] \<mapsto> File c)"
        "answered pc (reports st) (reports st1)"
    | (cancel) st' where "r1 = Inl (OperationCancelled, st')"
        "\<forall>q. lookup (files st') q = (if prefix T q then None else lookup (files st) q)"
        "cancelled pc (reports st) (reports st')"
    | (raised) e st' where "r1 = Inl (Raised e, st')" "answered pc (reports st) (reports st')"
        "(pc \<noteq> None \<and> tot = 0) \<or> (\<forall>c. lookup (files st) (?B @ [?b]) \<noteq> Some (File c))"
      by blast
    then show ?thesis
    proof cases
      case ok
      have "lookup (files st1) q = staged_lookup (files st) ?B T [?b] q" for q
        using ok(1,3) by (auto simp: staged_lookup_def)
      with ok el cn show ?thesis by auto
    next
      case cancel
      with el show ?thesis by auto
    next
      case raised
      have "(\<forall>c. lookup (files st) (?B @ [?b]) \<noteq> Some (File c)) \<Longrightarrow>
              lookup (files st) (?B @ [?b]) = Some Dir"
        using True by (cases "lookup (files st) (?B @ [?b])") (auto, metis node.exhaust)
      with raised el True show ?thesis by auto
    qed
  qed
qed

subsection \<open>Well-formed file systems\<close>

lemma wf_parent:
  "wf_fs fs \<Longrightarrow> lookup fs q \<noteq> None \<Longrightarrow> lookup fs (butlast q) = Some Dir"
proof (cases "q = []")
  case True
  then show ?thesis by simp
next
  case False
  assume wf: "wf_fs fs" and "lookup fs q \<noteq> None"
  with False obtain n where "map_of fs q = Some n" by (auto simp: lookup_def)
  then have "(q, n) \<in> set fs" by (rule map_of_SomeD)
  with wf show ?thesis by (auto simp: wf_fs_def)
qed

lemma wf_below:
  assumes wf: "wf_fs fs" and d: "lookup fs d \<noteq> Some Dir" and p: "strict_prefix d q"
  shows "lookup fs q = None"
  using p
proof (induction q rule: rev_induct)
  case Nil
  then show ?case by simp
next
  case (snoc x xs)
  show ?case
  proof (rule ccontr)
    assume "lookup fs (xs @ [x]) \<noteq> None"
    from wf_parent[OF wf this] have xs: "lookup fs xs = Some Dir" by simp
    from snoc.prems have "d = xs \<or> strict_prefix d xs"
      by (auto simp: strict_prefix_def prefix_snoc)
    then show False
    proof
      assume "d = xs" with xs d show False by simp
    next
      assume "strict_prefix d xs"
      from snoc.IH[OF this] xs show False by simp
    qed
  qed
qed

subsection \<open>The working directory of the export\<close>


lemma stage_manifest_Inr:
  assumes run: "stage_manifest J T mf name tag fs = Inr fs1"
    and wf: "wf_fs fs" and Tne: "T \<noteq> []"
  shows "flat_dir fs1 T"
    and "lookup fs1 (T @ [''metadata.json'']) = Some (File (Data (dump_metadata J name tag (butlast mf))))"
    and "\<exists>c. lookup fs1 (T @ [''manifest'']) = Some (File c) \<and>
             (\<not> prefix T mf \<longrightarrow> lookup fs mf = Some (File c))"
    and "\<And>q. strict_prefix T q \<Longrightarrow> q \<noteq> T @ [''metadata.json''] \<Longrightarrow> q \<noteq> T @ [''manifest'']
            \<Longrightarrow> lookup fs1 q = None"
    and "\<And>q. \<not> prefix T q \<Longrightarrow> lookup fs1 q = lookup fs q \<or>
            (lookup fs q = None \<and> prefix q T \<and> lookup fs1 q = Some Dir)"
proof -
  let ?meta = "T @ [''metadata.json'']" and ?man = "T @ [''manifest'']"
  from run obtain fsa where
    a: "(if path_exists fs T then rmtree fs T else Inr fs) = Inr fsa"
    by (auto simp: stage_manifest_def split: sum.splits)
  from run a obtain fsb where b: "mkdir_parents False fsa T = Inr fsb"
    by (auto simp: stage_manifest_def split: sum.splits)
  from run a b obtain fsc where
    c: "write_file fsb ?meta (Data (dump_metadata J name tag (butlast mf))) = Inr fsc"
    by (auto simp: stage_manifest_def split: sum.splits)
  from run a b c have d: "copy2 fsc mf ?man = Inr fs1"
    by (auto simp: stage_manifest_def split: sum.splits)
  have la: "lookup fsa q = (if prefix T q then None else lookup fs q)" for q
  proof (cases "path_exists fs T")
    case True
    with a have "rmtree fs T = Inr fsa" by simp
    from rmtree_Inr(1)[OF this Tne] show ?thesis .
  next
    case False
    with a have eq: "fsa = fs" by simp
    from False have n: "lookup fs T = None" by (simp add: path_exists_def)
    show ?thesis
    proof (cases "prefix T q")
      case True
      then have "q = T \<or> strict_prefix T q" by (auto simp: strict_prefix_def)
      then have "lookup fs q = None" using n wf_below[OF wf, of T q] by auto
      with True eq show ?thesis by simp
    next
      case False
      with eq show ?thesis by simp
    qed
  qed
  from mkdir_parents_Inr[OF b] have bT: "lookup fsb T = Some Dir"
    and bo: "\<And>q. lookup fsb q = lookup fsa q \<or>
              (lookup fsa q = None \<and> prefix q T \<and> lookup fsb q = Some Dir)" by auto
  have below_b: "lookup fsb q = None" if "strict_prefix T q" for q
  proof -
    from that have "\<not> prefix q T" by (auto simp: strict_prefix_def)
    with bo[of q] la[of q] that show ?thesis by (auto simp: strict_prefix_def)
  qed
  note lc = write_file_Inr(1)[OF c]
  have "lookup fsc ?man = None" using lc below_b[of ?man] by (simp add: strict_prefix_def)
  then have "lookup fsc ?man \<noteq> Some Dir" by simp
  from copy2_Inr[OF d this] obtain cm where
    cm: "lookup fsc mf = Some (File cm)" and l1: "lookup fs1 = (lookup fsc)(?man \<mapsto> File cm)"
    by blast
  show "flat_dir fs1 T"
    unfolding flat_dir_def
  proof (intro conjI allI)
    show "T \<noteq> []" by fact
    show "lookup fs1 T = Some Dir" using l1 lc bT by simp
    fix x
    show "lookup fs1 (T @ [x]) \<noteq> Some Dir"
      using l1 lc below_b[of "T @ [x]"] by (auto simp: strict_prefix_def)
  qed
  show "lookup fs1 ?meta = Some (File (Data (dump_metadata J name tag (butlast mf))))"
    using l1 lc by simp
  show "\<exists>c. lookup fs1 ?man = Some (File c) \<and> (\<not> prefix T mf \<longrightarrow> lookup fs mf = Some (File c))"
  proof (intro exI conjI impI)
    show "lookup fs1 ?man = Some (File cm)" using l1 by simp
    assume np: "\<not> prefix T mf"
    then have "mf \<noteq> ?meta" by auto
    with cm lc have "lookup fsb mf = Some (File cm)" by (simp add: fun_upd_def split: if_splits)
    with bo[of mf] have "lookup fsa mf = Some (File cm)" by auto
    with la[of mf] np show "lookup fs mf = Some (File cm)" by simp
  qed
  show "lookup fs1 q = None" if "strict_prefix T q" "q \<noteq> ?meta" "q \<noteq> ?man" for q
    using that l1 lc below_b[of q] by simp
  show "lookup fs1 q = lookup fs q \<or> (lookup fs q = None \<and> prefix q T \<and> lookup fs1 q = Some Dir)"
    if "\<not> prefix T q" for q
  proof -
    from that have "q \<noteq> ?meta" "q \<noteq> ?man" by auto
    then have "lookup fs1 q = lookup fsb q" using l1 lc by simp
    with bo[of q] la[of q] that show ?thesis by auto
  qed
qed


lemma remove_output_result:
  "remove_output fs out = res \<Longrightarrow>
     (lookup fs out = Some Dir \<and> (\<exists>e. res = Inl e))
   \<or> (lookup fs out \<noteq> Some Dir \<and> (\<exists>fs'. res = Inr fs' \<and> lookup fs' = (lookup fs)(out := None)))"
proof (cases "lookup fs out")
  case None
  assume "remove_output fs out = res"
  with None have "res = Inr fs" by (simp add: remove_output_def path_exists_def)
  moreover have "lookup fs = (lookup fs)(out := None)" using None by auto
  ultimately show ?thesis using None by auto
next
  case (Some n)
  assume r: "remove_output fs out = res"
  show ?thesis
  proof (cases n)
    case (File c)
    with Some have ne: "out \<noteq> []" by auto
    from r Some File have "res = Inr (AList.delete out fs)"
      by (simp add: remove_output_def path_exists_def unlink_def)
    with Some File ne show ?thesis by (simp add: lookup_delete)
  next
    case Dir
    with r Some show ?thesis by (auto simp: remove_output_def path_exists_def unlink_def)
  qed
qed

lemma archive_error_result:
  assumes run: "archive_error T out st = (r, st')" and Tne: "T \<noteq> []"
    and Td: "lookup (files st) T = Some Dir"
  shows "reports st' = reports st"
    and "\<And>q. prefix T q \<Longrightarrow> lookup (files st') q = None"
    and "\<And>q. \<not> prefix T q \<Longrightarrow> q \<noteq> out \<Longrightarrow> lookup (files st') q = lookup (files st) q"
    and "(r = ErrorCreatingArchive \<and> lookup (files st') out = None) \<or>
         ((\<exists>e. r = Raised e) \<and> lookup (files st) out = Some Dir \<and> \<not> prefix T out)"
proof -
  define fs1 where "fs1 = rmtree_ignore_errors (files st) T"
  have l1: "lookup fs1 q = (if prefix T q then None else lookup (files st) q)" for q
    using Tne Td by (simp add: fs1_def lookup_rmtree_ignore_errors)
  from remove_output_result[OF refl, of fs1 out]
  consider (dir) e where "lookup fs1 out = Some Dir" "remove_output fs1 out = Inl e"
    | (ok) fs2 where "lookup fs1 out \<noteq> Some Dir" "remove_output fs1 out = Inr fs2"
        "lookup fs2 = (lookup fs1)(out := None)"
    by blast
  then have "reports st' = reports st \<and> (\<forall>q. prefix T q \<longrightarrow> lookup (files st') q = None) \<and>
         (\<forall>q. \<not> prefix T q \<longrightarrow> q \<noteq> out \<longrightarrow> lookup (files st') q = lookup (files st) q) \<and>
         ((r = ErrorCreatingArchive \<and> lookup (files st') out = None) \<or>
         ((\<exists>e. r = Raised e) \<and> lookup (files st) out = Some Dir \<and> \<not> prefix T out))"
  proof cases
    case dir
    with run have "r = Raised e" "st' = st\<lparr>files := fs1\<rparr>"
      by (auto simp: archive_error_def fs1_def[symmetric] Let_def)
    with dir(1) l1 show ?thesis by (auto split: if_splits)
  next
    case ok
    with run have "r = ErrorCreatingArchive" "st' = st\<lparr>files := fs2\<rparr>"
      by (auto simp: archive_error_def fs1_def[symmetric] Let_def)
    with ok(3) l1 show ?thesis by auto
  qed
  then show "reports st' = reports st"
    and "\<And>q. prefix T q \<Longrightarrow> lookup (files st') q = None"
    and "\<And>q. \<not> prefix T q \<Longrightarrow> q \<noteq> out \<Longrightarrow> lookup (files st') q = lookup (files st) q"
    and "(r = ErrorCreatingArchive \<and> lookup (files st') out = None) \<or>
         ((\<exists>e. r = Raised e) \<and> lookup (files st) out = Some Dir \<and> \<not> prefix T out)"
    by blast+
qed

lemma tar_add_Inr:
  "tar_add out src arc (ms, fs) = Inr (ms', fs') \<Longrightarrow>
     \<exists>c. lookup fs src = Some (File c) \<and> ms' = ms @ [(arc, c)] \<and>
         lookup fs' = (lookup fs)(out \<mapsto> File (Archive ms'))"
  by (auto simp: tar_add_def read_file_Inr split: sum.splits dest: write_file_Inr(1))

lemma tar_add_ok:
  "lookup fs src = Some (File c) \<Longrightarrow> lookup fs out = Some (File old) \<Longrightarrow>
     \<exists>fs'. tar_add out src arc (ms, fs) = Inr (ms @ [(arc, c)], fs')"
  by (auto simp: tar_add_def write_file_def dest: read_file_Inr[THEN iffD2])

lemma tar_add_Inl:
  "tar_add out src arc (ms, fs) = Inl e \<Longrightarrow> lookup fs out = Some (File old) \<Longrightarrow>
     \<forall>c. lookup fs src \<noteq> Some (File c)"
  using tar_add_ok[of fs src _ out old arc ms] by fastforce

lemma joinpath_prefix: "prefix T (joinpath T b)"
  by (simp add: joinpath_def)

text \<open>The loop that adds the staged blobs to the archive: the complete case analysis.\<close>

lemma archive_blobs_result:
  assumes run: "archive_blobs pc T out bfs ms st = res" and Tne: "T \<noteq> []"
    and Td: "lookup (files st) T = Some Dir"
    and oa: "lookup (files st) out = Some (File (Archive ms))"
  shows
   "(\<exists>st' ms'. res = Inr st' \<and> answered pc (reports st) (reports st') \<and>
        lookup (files st') = (lookup (files st))(out \<mapsto> File (Archive (ms @ ms'))) \<and>
        map fst ms' = bfs \<and>
        (\<not> prefix T out \<longrightarrow>
           list_all2 (\<lambda>b m. fst m = b \<and> lookup (files st) (joinpath T b) = Some (File (snd m))) bfs ms'))
  \<or> (\<exists>st'. res = Inl (OperationCancelled, st') \<and> cancelled pc (reports st) (reports st') \<and>
        (\<forall>q. lookup (files st') q = (if prefix T q \<or> q = out then None else lookup (files st) q)))
  \<or> (\<exists>st'. res = Inl (ErrorCreatingArchive, st') \<and> answered pc (reports st) (reports st') \<and>
        (\<forall>q. lookup (files st') q = (if prefix T q \<or> q = out then None else lookup (files st) q)) \<and>
        (\<not> prefix T out \<longrightarrow>
           \<not> (\<forall>b\<in>set bfs. \<exists>c. lookup (files st) (joinpath T b) = Some (File c))))"
  using run Td oa
proof (induction bfs arbitrary: ms st)
  case Nil
  then have "res = Inr st" by simp
  moreover have "lookup (files st) = (lookup (files st))(out \<mapsto> File (Archive (ms @ [])))"
    using Nil.prems(3) by auto
  ultimately show ?case
    apply -
    apply (rule disjI1)
    apply (rule exI[of _ st], rule exI[of _ "[]"])
    by simp
next
  case (Cons b bfs)
  obtain ans st1 where cp: "checkpoint pc (AddingToArchive b) 95 st = (ans, st1)"
    by (cases "checkpoint pc (AddingToArchive b) 95 st")
  note ck = checkpoint_cases[OF cp]
  have Td1: "lookup (files st1) T = Some Dir" and oa1: "lookup (files st1) out = Some (File (Archive ms))"
    using ck(1) Cons.prems by simp_all
  have oT: "out \<noteq> T" using Td1 oa1 by auto
  show ?case
  proof (cases ans)
    case False
    define fs1 where "fs1 = rmtree_ignore_errors (files st1) T"
    have l1: "lookup fs1 q = (if prefix T q then None else lookup (files st) q)" for q
      using Tne Td1 ck(1) by (simp add: fs1_def lookup_rmtree_ignore_errors)
    have "lookup fs1 out \<noteq> Some Dir" using l1[of out] Cons.prems(3) by auto
    with remove_output_result[OF refl, of fs1 out] obtain fs2 where
      ro: "remove_output fs1 out = Inr fs2" and l2: "lookup fs2 = (lookup fs1)(out := None)"
      by auto
    from Cons.prems(1) cp False ro have "res = Inl (OperationCancelled, st1\<lparr>files := fs2\<rparr>)"
      by (simp add: fs1_def[symmetric] Let_def)
    moreover have "\<forall>q. lookup fs2 q = (if prefix T q \<or> q = out then None else lookup (files st) q)"
      using l1 l2 by auto
    ultimately show ?thesis using ck(3)[OF False] by auto
  next
    case True
    note an1 = ck(2)[OF True]
    show ?thesis
    proof (cases "tar_add out (joinpath T b) b (ms, files st1)")
      case (Inl e)
      obtain r st' where ae: "archive_error T out st1 = (r, st')"
        by (cases "archive_error T out st1")
      from Cons.prems(1) cp True Inl ae have res: "res = Inl (r, st')" by simp
      note aer = archive_error_result[OF ae Tne Td1]
      from aer(4) oa1 have r: "r = ErrorCreatingArchive" and on: "lookup (files st') out = None"
        by auto
      have "\<forall>q. lookup (files st') q = (if prefix T q \<or> q = out then None else lookup (files st) q)"
        using aer(2,3) on ck(1) by auto
      moreover have "\<forall>c. lookup (files st) (joinpath T b) \<noteq> Some (File c)"
        using tar_add_Inl[OF Inl oa1] ck(1) by simp
      ultimately show ?thesis using res r an1 aer(1) by auto
    next
      case (Inr p)
      obtain ms1 fs2 where p: "p = (ms1, fs2)" by (cases p)
      from tar_add_Inr[OF Inr[unfolded p]] ck(1) obtain c where
        c: "lookup (files st) (joinpath T b) = Some (File c)" and ms1: "ms1 = ms @ [(b, c)]"
        and l2: "lookup fs2 = (lookup (files st))(out \<mapsto> File (Archive ms1))" by auto
      define st2 where "st2 = st1\<lparr>files := fs2\<rparr>"
      have f2: "files st2 = fs2" and r2: "reports st2 = reports st1" by (simp_all add: st2_def)
      from Cons.prems(1) cp True Inr p have
        run': "archive_blobs pc T out bfs ms1 st2 = res" by (simp add: st2_def)
      have Td2: "lookup (files st2) T = Some Dir"
        using l2 Cons.prems(2) oT by (simp add: f2)
      have oa2: "lookup (files st2) out = Some (File (Archive ms1))"
        using l2 by (simp add: f2)
      have same: "\<not> prefix T out \<Longrightarrow> lookup fs2 (joinpath T x) = lookup (files st) (joinpath T x)" for x
        using l2 joinpath_prefix[of T x] by auto
      from Cons.IH[OF run' Td2 oa2] consider
        (a) st' ms' where "res = Inr st'" "answered pc (reports st2) (reports st')"
          "lookup (files st') = (lookup (files st2))(out \<mapsto> File (Archive (ms1 @ ms')))"
          "map fst ms' = bfs"
          "\<not> prefix T out \<longrightarrow>
             list_all2 (\<lambda>b m. fst m = b \<and> lookup (files st2) (joinpath T b) = Some (File (snd m))) bfs ms'"
      | (c) st' where "res = Inl (OperationCancelled, st')"
          "cancelled pc (reports st2) (reports st')"
          "\<forall>q. lookup (files st') q = (if prefix T q \<or> q = out then None else lookup (files st2) q)"
      | (e) st' where "res = Inl (ErrorCreatingArchive, st')"
          "answered pc (reports st2) (reports st')"
          "\<forall>q. lookup (files st') q = (if prefix T q \<or> q = out then None else lookup (files st2) q)"
          "\<not> prefix T out \<longrightarrow>
            \<not> (\<forall>b\<in>set bfs. \<exists>c. lookup (files st2) (joinpath T b) = Some (File c))"
        by blast
      then show ?thesis
      proof cases
        case a
        have "lookup (files st') = (lookup (files st))(out \<mapsto> File (Archive (ms @ ((b, c) # ms'))))"
          using a(3) l2 ms1 by (simp add: f2)
        moreover have "\<not> prefix T out \<longrightarrow>
           list_all2 (\<lambda>b m. fst m = b \<and> lookup (files st) (joinpath T b) = Some (File (snd m)))
             (b # bfs) ((b, c) # ms')"
          using a(5) c same by (auto simp: f2 elim!: list_all2_mono)
        ultimately show ?thesis using a(1,2,4) an1 unfolding r2
          apply -
          apply (rule disjI1)
          apply (rule exI[of _ st'], rule exI[of _ "(b, c) # ms'"])
          by (auto intro: answered_trans)
      next
        case c
        have "\<forall>q. lookup (files st') q = (if prefix T q \<or> q = out then None else lookup (files st) q)"
          using c(3) l2 by (auto simp: f2)
        with c(1,2) an1 show ?thesis unfolding r2 by (auto intro: cancelled_trans)
      next
        case e
        have "\<forall>q. lookup (files st') q = (if prefix T q \<or> q = out then None else lookup (files st) q)"
          using e(3) l2 by (auto simp: f2)
        moreover have "\<not> prefix T out \<longrightarrow>
            \<not> (\<forall>b\<in>set (b # bfs). \<exists>c. lookup (files st) (joinpath T b) = Some (File c))"
          using e(4) same by (auto simp: f2)
        ultimately show ?thesis using e(1,2) an1 unfolding r2
          apply -
          apply (rule disjI2, rule disjI2)
          by (auto intro: answered_trans)
      qed
    qed
  qed
qed

lemma write_file_Inl:
  "write_file fs p c = Inl e \<Longrightarrow>
     \<not> ((\<exists>old. lookup fs p = Some (File old)) \<or> (lookup fs p = None \<and> lookup fs (butlast p) = Some Dir))"
  using write_file_ok[of fs p _ c] by fastforce

lemma create_archive_result:
  assumes run: "create_archive pc T out bfs st = (r, st')" and Tne: "T \<noteq> []"
    and Td: "lookup (files st) T = Some Dir"
  shows
   "(r = NoError \<and>
       (\<exists>hm. answered pc (reports st) hm \<and>
          reports st' = (case pc of None \<Rightarrow> hm | Some cb \<Rightarrow> hm @ [(ExportComplete, 100)])) \<and>
       (\<forall>q. prefix T q \<longrightarrow> lookup (files st') q = None) \<and>
       (\<forall>q. \<not> prefix T q \<longrightarrow> q \<noteq> out \<longrightarrow> lookup (files st') q = lookup (files st) q) \<and>
       (\<not> prefix T out \<longrightarrow>
          (\<exists>c1 c2 ms'. lookup (files st) (T @ [''metadata.json'']) = Some (File c1) \<and>
             lookup (files st) (T @ [''manifest'']) = Some (File c2) \<and>
             list_all2 (\<lambda>b m. fst m = b \<and> lookup (files st) (joinpath T b) = Some (File (snd m))) bfs ms' \<and>
             lookup (files st') out =
               Some (File (Archive ((''metadata.json'', c1) # (''manifest'', c2) # ms'))))))
  \<or> (r = OperationCancelled \<and> cancelled pc (reports st) (reports st') \<and>
       (\<forall>q. prefix T q \<longrightarrow> lookup (files st') q = None) \<and>
       (\<forall>q. \<not> prefix T q \<longrightarrow> q \<noteq> out \<longrightarrow> lookup (files st') q = lookup (files st) q) \<and>
       (lookup (files st') out = None \<or> lookup (files st') out = lookup (files st) out))
  \<or> ((r = ErrorCreatingArchive \<or> (\<exists>e. r = Raised e)) \<and>
       answered pc (reports st) (reports st') \<and>
       (\<forall>q. prefix T q \<longrightarrow> lookup (files st') q = None) \<and>
       \<not> archive_inputs_ok (files st) T out bfs)"
proof -
  let ?meta = "T @ [''metadata.json'']" and ?man = "T @ [''manifest'']"
  obtain ans st1 where cp: "checkpoint pc CreatingArchive 95 st = (ans, st1)"
    by (cases "checkpoint pc CreatingArchive 95 st")
  note ck = checkpoint_cases[OF cp]
  have Td1: "lookup (files st1) T = Some Dir" using ck(1) Td by simp
  show ?thesis
  proof (cases ans)
    case False
    with run cp have r: "r = OperationCancelled"
      and st': "st' = st1\<lparr>files := rmtree_ignore_errors (files st1) T\<rparr>"
      by (simp_all add: create_archive_def)
    have "lookup (files st') q = (if prefix T q then None else lookup (files st) q)" for q
      using st' Tne Td1 ck(1) by (simp add: lookup_rmtree_ignore_errors)
    with r st' ck(3)[OF False] show ?thesis by auto
  next
    case True
    note an1 = ck(2)[OF True]
    show ?thesis
    proof (cases "write_file (files st1) out (Archive [])")
      case (Inl e)
      with run cp True have ae: "archive_error T out st1 = (r, st')"
        by (simp add: create_archive_def)
      note aer = archive_error_result[OF ae Tne Td1]
      from write_file_Inl[OF Inl] have "\<not> archive_inputs_ok (files st) T out bfs"
        unfolding archive_inputs_ok_def ck(1) by blast
      with aer an1 show ?thesis by auto
    next
      case (Inr fs2)
      note w = write_file_Inr[OF Inr]
      have l2: "lookup fs2 = (lookup (files st))(out \<mapsto> File (Archive []))"
        using w(1) ck(1) by simp
      have oT: "out \<noteq> T" using w(3) Td1 by auto
      define st2 where "st2 = st1\<lparr>files := fs2\<rparr>"
      have f2: "files st2 = fs2" and r2: "reports st2 = reports st1" by (simp_all add: st2_def)
      have Td2: "lookup (files st2) T = Some Dir" using l2 Td oT by (simp add: f2)
      have Tx: "\<not> prefix T out \<Longrightarrow> T @ [x] \<noteq> out" for x by auto
      have err: ?thesis
        if ae: "archive_error T out sx = (r, st')" and fx: "lookup (files sx) T = Some Dir"
          and rx: "reports sx = reports st1" and bad: "\<not> archive_inputs_ok (files st) T out bfs"
          for sx
      proof -
        note aer = archive_error_result[OF ae Tne fx]
        from aer an1 rx bad show ?thesis by auto
      qed
      show ?thesis
      proof (cases "tar_add out ?meta ''metadata.json'' ([], fs2)")
        case (Inl e)
        with run cp True Inr have ae: "archive_error T out st2 = (r, st')"
          by (simp add: create_archive_def st2_def)
        have "\<not> prefix T out \<Longrightarrow> \<forall>c. lookup (files st) ?meta \<noteq> Some (File c)"
          using tar_add_Inl[OF Inl, of "Archive []"] l2 Tx by auto
        then have "\<not> archive_inputs_ok (files st) T out bfs"
          by (auto simp: archive_inputs_ok_def)
        from err[OF ae Td2 r2 this] show ?thesis .
      next
        case t3: (Inr p3)
        obtain ms3 fs3 where p3: "p3 = (ms3, fs3)" by (cases p3)
        from tar_add_Inr[OF t3[unfolded p3]] obtain c1 where
          c1: "lookup fs2 ?meta = Some (File c1)" and ms3: "ms3 = [(''metadata.json'', c1)]"
          and l3: "lookup fs3 = (lookup fs2)(out \<mapsto> File (Archive ms3))" by auto
        define st3 where "st3 = st1\<lparr>files := fs3\<rparr>"
        have f3: "files st3 = fs3" and r3: "reports st3 = reports st1" by (simp_all add: st3_def)
        have Td3: "lookup (files st3) T = Some Dir" using l3 l2 Td oT by (simp add: f3)
        show ?thesis
        proof (cases "tar_add out ?man ''manifest'' (ms3, fs3)")
          case (Inl e)
          with run cp True Inr t3 p3 have ae: "archive_error T out st3 = (r, st')"
            by (simp add: create_archive_def st3_def)
          have "\<not> prefix T out \<Longrightarrow> \<forall>c. lookup (files st) ?man \<noteq> Some (File c)"
            using tar_add_Inl[OF Inl, of "Archive ms3"] l3 l2 Tx by auto
          then have "\<not> archive_inputs_ok (files st) T out bfs"
            by (auto simp: archive_inputs_ok_def)
          from err[OF ae Td3 r3 this] show ?thesis .
        next
          case t4: (Inr p4)
          obtain ms4 fs4 where p4: "p4 = (ms4, fs4)" by (cases p4)
          from tar_add_Inr[OF t4[unfolded p4]] obtain c2 where
            c2: "lookup fs3 ?man = Some (File c2)" and ms4: "ms4 = ms3 @ [(''manifest'', c2)]"
            and l4: "lookup fs4 = (lookup fs3)(out \<mapsto> File (Archive ms4))" by auto
          define st4 where "st4 = st1\<lparr>files := fs4\<rparr>"
          have f4: "files st4 = fs4" and r4: "reports st4 = reports st1" by (simp_all add: st4_def)
          have l4': "lookup fs4 = (lookup (files st))(out \<mapsto> File (Archive ms4))"
            using l4 l3 l2 by simp
          have Td4: "lookup (files st4) T = Some Dir" using l4' Td oT by (simp add: f4)
          have oa4: "lookup (files st4) out = Some (File (Archive ms4))" using l4' by (simp add: f4)
          have same: "\<not> prefix T out \<Longrightarrow> prefix T q \<Longrightarrow> lookup fs4 q = lookup (files st) q" for q
            using l4' by auto
          have c1': "\<not> prefix T out \<Longrightarrow> lookup (files st) ?meta = Some (File c1)"
            using c1 l2 Tx by auto
          have c2': "\<not> prefix T out \<Longrightarrow> lookup (files st) ?man = Some (File c2)"
            using c2 l3 l2 Tx by auto
          define res where "res = archive_blobs pc T out bfs ms4 st4"
          from archive_blobs_result[OF res_def[symmetric] Tne Td4 oa4] consider
            (a) st5 ms' where "res = Inr st5" "answered pc (reports st4) (reports st5)"
              "lookup (files st5) = (lookup (files st4))(out \<mapsto> File (Archive (ms4 @ ms')))"
              "\<not> prefix T out \<longrightarrow>
                 list_all2 (\<lambda>b m. fst m = b \<and> lookup (files st4) (joinpath T b) = Some (File (snd m))) bfs ms'"
          | (c) sx where "res = Inl (OperationCancelled, sx)"
              "cancelled pc (reports st4) (reports sx)"
              "\<forall>q. lookup (files sx) q = (if prefix T q \<or> q = out then None else lookup (files st4) q)"
          | (e) sx where "res = Inl (ErrorCreatingArchive, sx)"
              "answered pc (reports st4) (reports sx)"
              "\<forall>q. lookup (files sx) q = (if prefix T q \<or> q = out then None else lookup (files st4) q)"
              "\<not> prefix T out \<longrightarrow>
                \<not> (\<forall>b\<in>set bfs. \<exists>c. lookup (files st4) (joinpath T b) = Some (File c))"
            by blast
          then show ?thesis
          proof cases
            case c
            with run cp True Inr t3 p3 t4 p4 have "r = OperationCancelled" "st' = sx"
              by (simp_all add: create_archive_def st4_def res_def)
            moreover have "\<forall>q. lookup (files sx) q = (if prefix T q \<or> q = out then None else lookup (files st) q)"
              using c(3) l4' by (auto simp: f4)
            moreover have "cancelled pc (reports st) (reports sx)"
              using c(2) an1 by (auto simp: r4 intro: cancelled_trans)
            ultimately show ?thesis by auto
          next
            case e
            with run cp True Inr t3 p3 t4 p4 have "r = ErrorCreatingArchive" "st' = sx"
              by (simp_all add: create_archive_def st4_def res_def)
            moreover have "\<forall>q. prefix T q \<longrightarrow> lookup (files sx) q = None"
              using e(3) by auto
            moreover have "answered pc (reports st) (reports sx)"
              using e(2) an1 by (auto simp: r4 intro: answered_trans)
            moreover have "\<not> archive_inputs_ok (files st) T out bfs"
              using e(4) same joinpath_prefix[of T] by (auto simp: archive_inputs_ok_def f4)
            ultimately show ?thesis by auto
          next
            case a
            define st6 where "st6 = st5\<lparr>files := rmtree_ignore_errors (files st5) T\<rparr>"
            from a(1) run cp True Inr t3 p3 t4 p4 have r: "r = NoError"
              and st': "st' = snd (checkpoint pc ExportComplete 100 st6)"
              by (simp_all add: create_archive_def st4_def res_def st6_def Let_def)
            have l5: "lookup (files st5) = (lookup (files st))(out \<mapsto> File (Archive (ms4 @ ms')))"
              using a(3) l4' by (simp add: f4)
            have Td5: "lookup (files st5) T = Some Dir" using l5 Td oT by simp
            have fs': "files st' = files st6"
              using st' by (cases pc) (auto simp: checkpoint_def report_def Let_def)
            have l6: "lookup (files st') q = (if prefix T q then None else lookup (files st5) q)" for q
              using Tne Td5 by (simp add: fs' st6_def lookup_rmtree_ignore_errors)
            have rp: "reports st' = (case pc of None \<Rightarrow> reports st5
                        | Some cb \<Rightarrow> reports st5 @ [(ExportComplete, 100)])"
              using st' by (cases pc) (auto simp: checkpoint_def report_def Let_def st6_def)
            have an: "answered pc (reports st) (reports st5)"
              using a(2) an1 by (auto simp: r4 intro: answered_trans)
            have "\<not> prefix T out \<longrightarrow>
                   list_all2 (\<lambda>b m. fst m = b \<and> lookup (files st) (joinpath T b) = Some (File (snd m))) bfs ms'"
              using a(4) same joinpath_prefix[of T] by (auto simp: f4 elim!: list_all2_mono)
            moreover have "\<not> prefix T out \<longrightarrow> lookup (files st') out =
               Some (File (Archive ((''metadata.json'', c1) # (''manifest'', c2) # ms')))"
              using l6[of out] l5 ms4 ms3 by simp
            ultimately have cont: "\<not> prefix T out \<longrightarrow>
              (\<exists>c1 c2 ms'. lookup (files st) ?meta = Some (File c1) \<and>
                 lookup (files st) ?man = Some (File c2) \<and>
                 list_all2 (\<lambda>b m. fst m = b \<and> lookup (files st) (joinpath T b) = Some (File (snd m))) bfs ms' \<and>
                 lookup (files st') out =
                   Some (File (Archive ((''metadata.json'', c1) # (''manifest'', c2) # ms'))))"
              using c1' c2' by blast
            have "\<forall>q. prefix T q \<longrightarrow> lookup (files st') q = None" using l6 by simp
            moreover have "\<forall>q. \<not> prefix T q \<longrightarrow> q \<noteq> out \<longrightarrow> lookup (files st') q = lookup (files st) q"
              using l6 l5 by simp
            moreover have "\<exists>hm. answered pc (reports st) hm \<and>
                reports st' = (case pc of None \<Rightarrow> hm | Some cb \<Rightarrow> hm @ [(ExportComplete, 100)])"
              using an rp by blast
            ultimately show ?thesis using r cont by blast
          qed
        qed
      qed
    qed
  qed
qed

lemma staged_names_sha:
  "b \<in> set (staged_names ls) \<Longrightarrow> \<exists>l\<in>set ls. is_sha256 (get_digest l) \<and> b = blob_filename_of (get_digest l)"
  by (auto simp: staged_names_def)

lemma config_names_sha:
  "b \<in> set (config_names fs B cfg) \<Longrightarrow>
     is_sha256 (get_digest cfg) \<and> b = blob_filename_of (get_digest cfg) \<and> lookup fs (B @ [b]) \<noteq> None"
  by (auto simp: config_names_def split: if_splits)

lemma staged_lookup_outside:
  "(\<And>b. q \<noteq> T @ [b]) \<Longrightarrow> staged_lookup fs B T names q = lookup fs q"
  by (auto simp: staged_lookup_def)

lemma staged_lookup_blobs:
  "B \<noteq> T \<Longrightarrow> staged_lookup fs B T names (B @ [x]) = lookup fs (B @ [x])"
  by (auto simp: staged_lookup_def)

lemma staged_lookup_not_below:
  "\<not> prefix T q \<Longrightarrow> staged_lookup fs B T names q = lookup fs q"
  by (auto simp: staged_lookup_def)

lemma staged_lookup_in:
  "b \<in> set names \<Longrightarrow> staged_lookup fs B T names (T @ [b]) = lookup fs (B @ [b])"
  by (auto simp: staged_lookup_def)

lemma staged_lookup_other:
  "b \<notin> set names \<Longrightarrow> staged_lookup fs B T names (T @ [b]) = lookup fs (T @ [b])"
  by (auto simp: staged_lookup_def)

lemma staged_lookup_append:
  assumes "\<And>q. lookup fs2 q = staged_lookup fs1 B T n1 q" and "B \<noteq> T"
  shows "staged_lookup fs2 B T n2 q = staged_lookup fs1 B T (n1 @ n2) q"
proof -
  have "lookup fs2 (B @ [x]) = lookup fs1 (B @ [x])" for x
    using assms by (simp add: staged_lookup_blobs)
  then show ?thesis using assms(1) by (auto simp: staged_lookup_def)
qed

lemma flat_dir_staged:
  assumes flat: "flat_dir fs1 T" and l: "\<And>q. lookup fs2 q = staged_lookup fs1 B T names q"
    and files: "\<And>b. b \<in> set names \<Longrightarrow> \<exists>c. lookup fs1 (B @ [b]) = Some (File c)"
  shows "flat_dir fs2 T"
  unfolding flat_dir_def
proof (intro conjI allI)
  from flat show "T \<noteq> []" by (simp add: flat_dir_def)
  show "lookup fs2 T = Some Dir" using flat l[of T] by (simp add: flat_dir_def staged_lookup_outside)
  fix x
  show "lookup fs2 (T @ [x]) \<noteq> Some Dir"
  proof (cases "x \<in> set names")
    case True
    with files[OF True] l[of "T @ [x]"] show ?thesis by (auto simp: staged_lookup_in)
  next
    case False
    with flat l[of "T @ [x]"] show ?thesis by (simp add: staged_lookup_other flat_dir_def)
  qed
qed

lemma blobs_are_files_names:
  "blobs_are_files fs B ls \<Longrightarrow> b \<in> set (staged_names ls) \<Longrightarrow> \<exists>c. lookup fs (B @ [b]) = Some (File c)"
  by (auto simp: blobs_are_files_def dest!: staged_names_sha)

text \<open>The whole export: the complete case analysis, in terms of the file system \<open>fs1\<close> that
  holds the freshly made working directory.\<close>

lemma export_model_result:
  fixes name tag mgr
  defines "T \<equiv> export_temp_dir name tag" and "B \<equiv> blobs_dir mgr"
  assumes run: "export_model J mgr mf name tag out pc st = (r, st')"
    and wf: "wf_fs (files st)" and BT: "B \<noteq> T"
  shows
   "(r = ErrorReadingManifest \<and> st' = st \<and> json_load_manifest J (files st) mf = None)
  \<or> (\<exists>m. json_load_manifest J (files st) mf = Some m \<and>
      ((\<exists>e fs'. r = Raised e \<and> st' = st\<lparr>files := fs'\<rparr> \<and>
           stage_manifest J T mf name tag (files st) = Inl (e, fs'))
     \<or> (\<exists>fs1. stage_manifest J T mf name tag (files st) = Inr fs1 \<and>
          ((\<exists>pre l post. get_layers m = pre @ l # post \<and> is_sha256 (get_digest l) \<and>
               lookup fs1 (B @ [blob_filename_of (get_digest l)]) = None \<and>
               r = BlobFileNotFound (blob_filename_of (get_digest l)) \<and>
               blobs_are_files fs1 B pre \<and>
               (\<forall>q. lookup (files st') q = staged_lookup fs1 B T (staged_names pre) q) \<and>
               answered pc (reports st) (reports st'))
         \<or> (r = OperationCancelled \<and> cancelled pc (reports st) (reports st') \<and>
               (\<forall>q. prefix T q \<longrightarrow> lookup (files st') q = None) \<and>
               (\<forall>q. \<not> prefix T q \<longrightarrow> q \<noteq> out \<longrightarrow> lookup (files st') q = lookup fs1 q) \<and>
               (lookup (files st') out = None \<or> lookup (files st') out = lookup fs1 out))
         \<or> ((r = ErrorCreatingArchive \<or> (\<exists>e. r = Raised e)) \<and>
               answered pc (reports st) (reports st') \<and>
               \<not> export_inputs_ok fs1 B T out pc m)
         \<or> (r = NoError \<and> blobs_are_files fs1 B (get_layers m) \<and>
               (\<exists>hm. answered pc (reports st) hm \<and>
                  reports st' = (case pc of None \<Rightarrow> hm | Some cb \<Rightarrow> hm @ [(ExportComplete, 100)])) \<and>
               (\<forall>q. prefix T q \<longrightarrow> lookup (files st') q = None) \<and>
               (\<forall>q. \<not> prefix T q \<longrightarrow> q \<noteq> out \<longrightarrow> lookup (files st') q = lookup fs1 q) \<and>
               (\<not> prefix T out \<longrightarrow>
                  (\<exists>c1 c2 ms'. lookup fs1 (T @ [''metadata.json'']) = Some (File c1) \<and>
                     lookup fs1 (T @ [''manifest'']) = Some (File c2) \<and>
                     list_all2 (\<lambda>b m. fst m = b \<and> lookup fs1 (B @ [b]) = Some (File (snd m)))
                       (staged_names (get_layers m) @ config_names fs1 B (get_config m)) ms' \<and>
                     lookup (files st') out =
                       Some (File (Archive ((''metadata.json'', c1) # (''manifest'', c2) # ms'))))))))))"
proof (cases "json_load_manifest J (files st) mf")
  case None
  with run show ?thesis by (simp add: export_model_def)
next
  case (Some m)
  have Tne: "T \<noteq> []" by (simp add: T_def export_temp_dir_def)
  show ?thesis
  proof (cases "stage_manifest J T mf name tag (files st)")
    case (Inl p)
    obtain e fs' where p: "p = (e, fs')" by (cases p)
    with run Some Inl have "r = Raised e" "st' = st\<lparr>files := fs'\<rparr>"
      by (simp_all add: export_model_def T_def[symmetric])
    with Some Inl p show ?thesis by auto
  next
    case (Inr fs1)
    note sm = stage_manifest_Inr[OF Inr wf Tne]
    define st1 where "st1 = st\<lparr>files := fs1\<rparr>"
    have f1: "files st1 = fs1" and r1: "reports st1 = reports st" by (simp_all add: st1_def)
    have flat1: "flat_dir (files st1) T" using sm(1) by (simp add: f1)
    define tot where "tot = total_size_of m"
    define ls where "ls = get_layers m"
    define cfg where "cfg = get_config m"
    define resl where "resl = export_layers mgr pc T tot ls ([], 0, st1)"
    have BT': "blobs_dir mgr \<noteq> T" using BT by (simp add: B_def)
    have names_sha: "\<exists>d. is_sha256 d \<and> b = blob_filename_of d"
      if "b \<in> set (staged_names ls @ config_names fs B cfg)" for b fs
      using that by (auto dest!: staged_names_sha config_names_sha)
    have meta_ne: "T @ [''metadata.json''] \<noteq> T @ [b]" if "b \<in> set (staged_names ls @ config_names fs B cfg)" for b fs
    proof -
      from names_sha[OF that] obtain d where "is_sha256 d" "b = blob_filename_of d" by blast
      with blob_filename_not_manifest[of d] show ?thesis by auto
    qed
    have man_ne: "T @ [''manifest''] \<noteq> T @ [b]" if "b \<in> set (staged_names ls @ config_names fs B cfg)" for b fs
    proof -
      from names_sha[OF that] obtain d where "is_sha256 d" "b = blob_filename_of d" by blast
      with blob_filename_not_manifest[of d] show ?thesis by auto
    qed
    from export_layers_result[OF resl_def[symmetric] flat1 BT'] consider
      (ok) cur2 st2 where "resl = Inr ([] @ staged_names ls, cur2, st2)"
        "blobs_are_files (files st1) B ls"
        "\<forall>q. lookup (files st2) q = staged_lookup (files st1) B T (staged_names ls) q"
        "answered pc (reports st1) (reports st2)"
    | (missing) pre l post sx where "ls = pre @ l # post" "is_sha256 (get_digest l)"
        "lookup (files st1) (B @ [blob_filename_of (get_digest l)]) = None"
        "resl = Inl (BlobFileNotFound (blob_filename_of (get_digest l)), sx)"
        "blobs_are_files (files st1) B pre"
        "\<forall>q. lookup (files sx) q = staged_lookup (files st1) B T (staged_names pre) q"
        "answered pc (reports st1) (reports sx)"
    | (cancel) sx where "resl = Inl (OperationCancelled, sx)"
        "\<forall>q. lookup (files sx) q = (if prefix T q then None else lookup (files st1) q)"
        "cancelled pc (reports st1) (reports sx)"
    | (raised) e sx where "resl = Inl (Raised e, sx)" "answered pc (reports st1) (reports sx)"
        "(pc \<noteq> None \<and> tot = 0) \<or> \<not> no_blob_dirs (files st1) B ls"
      unfolding B_def by blast
    then show ?thesis
    proof cases
      case missing
      with run Some Inr have "r = BlobFileNotFound (blob_filename_of (get_digest l))" "st' = sx"
        by (simp_all add: export_model_def T_def[symmetric] Let_def st1_def resl_def tot_def ls_def)
      with missing Some Inr show ?thesis
        unfolding f1 r1 ls_def by blast
    next
      case cancel
      with run Some Inr have "r = OperationCancelled" "st' = sx"
        by (simp_all add: export_model_def T_def[symmetric] Let_def st1_def resl_def tot_def ls_def)
      with cancel Some Inr show ?thesis
        unfolding f1 r1 by auto
    next
      case raised
      with run Some Inr have "r = Raised e" "st' = sx"
        by (simp_all add: export_model_def T_def[symmetric] Let_def st1_def resl_def tot_def ls_def)
      moreover have "\<not> export_inputs_ok fs1 B T out pc m"
        using raised(3) by (auto simp: export_inputs_ok_def f1 tot_def ls_def)
      ultimately show ?thesis using raised(2) Some Inr
        unfolding f1 r1 by blast
    next
      case ok
      have l2: "\<And>q. lookup (files st2) q = staged_lookup fs1 B T (staged_names ls) q"
        using ok(3) by (simp add: f1)
      have baf: "blobs_are_files fs1 B ls" using ok(2) by (simp add: f1)
      have flat2: "flat_dir (files st2) T"
        using flat_dir_staged[OF sm(1) l2] blobs_are_files_names[OF baf] by blast
      have b2: "lookup (files st2) (B @ [x]) = lookup fs1 (B @ [x])" for x
        using l2 BT by (simp add: staged_lookup_blobs)
      define cn where "cn = config_names fs1 B cfg"
      have cn2: "config_names (files st2) (blobs_dir mgr) cfg = cn"
        by (simp add: cn_def config_names_def b2 B_def[symmetric])
      define resc where "resc = export_config mgr pc T tot cfg (staged_names ls, cur2, st2)"
      from export_config_result[OF resc_def[symmetric] flat2 BT'] consider
        (ok2) cur3 st3 where "resc = Inr (staged_names ls @ cn, cur3, st3)"
          "\<forall>b\<in>set cn. \<exists>c. lookup (files st2) (B @ [b]) = Some (File c)"
          "\<forall>q. lookup (files st3) q = staged_lookup (files st2) B T cn q"
          "answered pc (reports st2) (reports st3)"
      | (cancel2) sx where "resc = Inl (OperationCancelled, sx)"
          "\<forall>q. lookup (files sx) q = (if prefix T q then None else lookup (files st2) q)"
          "cancelled pc (reports st2) (reports sx)"
      | (raised2) e sx where "resc = Inl (Raised e, sx)" "answered pc (reports st2) (reports sx)"
          "(pc \<noteq> None \<and> tot = 0) \<or>
           (is_sha256 (get_digest cfg) \<and>
            lookup (files st2) (B @ [blob_filename_of (get_digest cfg)]) = Some Dir)"
        unfolding cn2 B_def by blast
      then show ?thesis
      proof cases
        case cancel2
        with run Some Inr ok(1) have "r = OperationCancelled" "st' = sx"
          by (simp_all add: export_model_def T_def[symmetric] Let_def st1_def[symmetric]
              resl_def[symmetric] tot_def[symmetric] ls_def[symmetric] cfg_def[symmetric] resc_def[symmetric])
        moreover have "cancelled pc (reports st) (reports sx)"
          using cancel2(3) ok(4) by (auto simp: r1 intro: cancelled_trans)
        moreover have "\<forall>q. lookup (files sx) q = (if prefix T q then None else lookup fs1 q)"
          using cancel2(2) l2 by (auto simp: staged_lookup_not_below)
        ultimately show ?thesis using Some Inr by auto
      next
        case raised2
        with run Some Inr ok(1) have "r = Raised e" "st' = sx"
          by (simp_all add: export_model_def T_def[symmetric] Let_def st1_def[symmetric]
              resl_def[symmetric] tot_def[symmetric] ls_def[symmetric] cfg_def[symmetric] resc_def[symmetric])
        moreover have "answered pc (reports st) (reports sx)"
          using raised2(2) ok(4) by (auto simp: r1 intro: answered_trans)
        moreover have "\<not> export_inputs_ok fs1 B T out pc m"
          using raised2(3) by (auto simp: export_inputs_ok_def no_blob_dirs_def b2 tot_def cfg_def)
        ultimately show ?thesis using Some Inr by blast
      next
        case ok2
        define names where "names = staged_names ls @ cn"
        have l3: "\<And>q. lookup (files st3) q = staged_lookup fs1 B T names q"
          using ok2(3) staged_lookup_append[of "files st2" fs1 B T "staged_names ls" cn, OF l2 BT]
          by (simp add: names_def)
        have nf: "\<exists>c. lookup fs1 (B @ [b]) = Some (File c)" if "b \<in> set names" for b
          using that ok2(2) blobs_are_files_names[OF baf] by (auto simp: names_def b2)
        have flat3: "flat_dir (files st3) T"
          using flat_dir_staged[OF sm(1) l3] nf by blast
        then have Td3: "lookup (files st3) T = Some Dir" by (simp add: flat_dir_def)
        have an3: "answered pc (reports st) (reports st3)"
          using ok2(4) ok(4) by (auto simp: r1 intro: answered_trans)
        have nb: "\<not> prefix T q \<Longrightarrow> lookup (files st3) q = lookup fs1 q" for q
          using l3 by (simp add: staged_lookup_not_below)
        have bne: "b \<noteq> []" if "b \<in> set names" for b
        proof -
          from that names_sha[of b fs1] obtain d where "is_sha256 d" "b = blob_filename_of d"
            by (auto simp: names_def cn_def)
          then show ?thesis by (simp add: blob_filename_nonempty)
        qed
        have jn: "lookup (files st3) (joinpath T b) = lookup fs1 (B @ [b])" if "b \<in> set names" for b
          using that l3 bne[OF that] by (simp add: joinpath_nonempty staged_lookup_in)
        have meta3: "lookup (files st3) (T @ [''metadata.json'']) = lookup fs1 (T @ [''metadata.json''])"
          using l3 meta_ne[of _ fs1] by (auto simp: staged_lookup_def names_def cn_def)
        have man3: "lookup (files st3) (T @ [''manifest'']) = lookup fs1 (T @ [''manifest''])"
          using l3 man_ne[of _ fs1] by (auto simp: staged_lookup_def names_def cn_def)
        from run Some Inr ok(1) ok2(1) have ca: "create_archive pc T out names st3 = (r, st')"
          by (simp add: export_model_def T_def[symmetric] Let_def st1_def[symmetric]
              resl_def[symmetric] tot_def[symmetric] ls_def[symmetric] cfg_def[symmetric]
              resc_def[symmetric] names_def)
        from create_archive_result[OF ca Tne Td3] consider
          (n) hm where "r = NoError" "answered pc (reports st3) hm"
            "reports st' = (case pc of None \<Rightarrow> hm | Some cb \<Rightarrow> hm @ [(ExportComplete, 100)])"
            "\<forall>q. prefix T q \<longrightarrow> lookup (files st') q = None"
            "\<forall>q. \<not> prefix T q \<longrightarrow> q \<noteq> out \<longrightarrow> lookup (files st') q = lookup (files st3) q"
            "\<not> prefix T out \<longrightarrow>
              (\<exists>c1 c2 ms'. lookup (files st3) (T @ [''metadata.json'']) = Some (File c1) \<and>
                 lookup (files st3) (T @ [''manifest'']) = Some (File c2) \<and>
                 list_all2 (\<lambda>b m. fst m = b \<and> lookup (files st3) (joinpath T b) = Some (File (snd m))) names ms' \<and>
                 lookup (files st') out =
                   Some (File (Archive ((''metadata.json'', c1) # (''manifest'', c2) # ms'))))"
        | (c) "r = OperationCancelled" "cancelled pc (reports st3) (reports st')"
            "\<forall>q. prefix T q \<longrightarrow> lookup (files st') q = None"
            "\<forall>q. \<not> prefix T q \<longrightarrow> q \<noteq> out \<longrightarrow> lookup (files st') q = lookup (files st3) q"
            "lookup (files st') out = None \<or> lookup (files st') out = lookup (files st3) out"
        | (e) "r = ErrorCreatingArchive \<or> (\<exists>e. r = Raised e)"
            "answered pc (reports st3) (reports st')"
            "\<not> archive_inputs_ok (files st3) T out names"
          by blast
        then show ?thesis
        proof cases
          case c
          have "cancelled pc (reports st) (reports st')"
            using c(2) an3 by (auto intro: cancelled_trans)
          moreover have "lookup (files st') out = None \<or> lookup (files st') out = lookup fs1 out"
            using c(3,5) nb[of out] by (cases "prefix T out") auto
          moreover have "\<forall>q. \<not> prefix T q \<longrightarrow> q \<noteq> out \<longrightarrow> lookup (files st') q = lookup fs1 q"
            using c(4) nb by simp
          ultimately show ?thesis using c(1,3) Some Inr by auto
        next
          case e
          have "answered pc (reports st) (reports st')"
            using e(2) an3 by (auto intro: answered_trans)
          moreover have "\<not> export_inputs_ok fs1 B T out pc m"
          proof
            assume eo: "export_inputs_ok fs1 B T out pc m"
            then have np: "\<not> prefix T out" by (simp add: export_inputs_ok_def)
            then have "\<not> prefix T (butlast out)"
              by (meson prefix_order.trans prefixeq_butlast)
            with eo np have "(\<exists>old. lookup (files st3) out = Some (File old)) \<or>
               (lookup (files st3) out = None \<and> lookup (files st3) (butlast out) = Some Dir)"
              by (simp add: nb export_inputs_ok_def)
            moreover have "\<exists>c. lookup (files st3) (T @ [''metadata.json'']) = Some (File c)"
              using meta3 sm(2) by simp
            moreover have "\<exists>c. lookup (files st3) (T @ [''manifest'']) = Some (File c)"
              using man3 sm(3) by auto
            moreover have "\<forall>b\<in>set names. \<exists>c. lookup (files st3) (joinpath T b) = Some (File c)"
              using jn nf by simp
            ultimately have "archive_inputs_ok (files st3) T out names"
              using np by (simp add: archive_inputs_ok_def)
            with e(3) show False by simp
          qed
          ultimately show ?thesis using e(1) Some Inr by blast
        next
          case n
          have "answered pc (reports st) hm"
            using n(2) an3 by (auto intro: answered_trans)
          then have tr: "\<exists>hm. answered pc (reports st) hm \<and>
                  reports st' = (case pc of None \<Rightarrow> hm | Some cb \<Rightarrow> hm @ [(ExportComplete, 100)])"
            using n(3) by blast
          have fr: "\<forall>q. \<not> prefix T q \<longrightarrow> q \<noteq> out \<longrightarrow> lookup (files st') q = lookup fs1 q"
            using n(5) nb by simp
          have cont: "\<not> prefix T out \<longrightarrow>
                  (\<exists>c1 c2 ms'. lookup fs1 (T @ [''metadata.json'']) = Some (File c1) \<and>
                     lookup fs1 (T @ [''manifest'']) = Some (File c2) \<and>
                     list_all2 (\<lambda>b m. fst m = b \<and> lookup fs1 (B @ [b]) = Some (File (snd m)))
                       (staged_names (get_layers m) @ config_names fs1 B (get_config m)) ms' \<and>
                     lookup (files st') out =
                       Some (File (Archive ((''metadata.json'', c1) # (''manifest'', c2) # ms'))))"
          proof
            assume "\<not> prefix T out"
            with n(6) obtain c1 c2 ms' where
              c: "lookup (files st3) (T @ [''metadata.json'']) = Some (File c1)"
                 "lookup (files st3) (T @ [''manifest'']) = Some (File c2)"
                 "list_all2 (\<lambda>b m. fst m = b \<and> lookup (files st3) (joinpath T b) = Some (File (snd m))) names ms'"
                 "lookup (files st') out =
                   Some (File (Archive ((''metadata.json'', c1) # (''manifest'', c2) # ms')))"
              by blast
            have "list_all2 (\<lambda>b m. fst m = b \<and> lookup fs1 (B @ [b]) = Some (File (snd m))) names ms'"
              using c(3) jn by (auto simp: list_all2_conv_all_nth)
            with c(1,2,4) show "\<exists>c1 c2 ms'. lookup fs1 (T @ [''metadata.json'']) = Some (File c1) \<and>
                     lookup fs1 (T @ [''manifest'']) = Some (File c2) \<and>
                     list_all2 (\<lambda>b m. fst m = b \<and> lookup fs1 (B @ [b]) = Some (File (snd m)))
                       (staged_names (get_layers m) @ config_names fs1 B (get_config m)) ms' \<and>
                     lookup (files st') out =
                       Some (File (Archive ((''metadata.json'', c1) # (''manifest'', c2) # ms')))"
              unfolding meta3 man3 names_def cn_def ls_def cfg_def by blast
          qed
          from n(1) baf tr n(4) fr cont Some Inr show ?thesis
            unfolding ls_def by blast
        qed
      qed
    qed
  qed
qed

subsection \<open>The export as a whole\<close>

lemma export_temp_dir_nonempty: "export_temp_dir name tag \<noteq> []"
  by (simp add: export_temp_dir_def)


lemma stage_manifest_outside:
  assumes sm: "stage_manifest J T mf name tag fs = Inr fs1" and wf: "wf_fs fs"
    and Tne: "T \<noteq> []" and "\<not> prefix T q" and "\<not> prefix q T"
  shows "lookup fs1 q = lookup fs q"
  using stage_manifest_Inr(5)[OF sm wf Tne assms(4)] assms(5) by auto



lemma not_cancelled:
  "(\<And>cb. pc = Some cb \<Longrightarrow> \<forall>h. cb h) \<Longrightarrow> \<not> cancelled pc h h'"
  by (auto simp: cancelled_def)






text \<open>
  Claim C3, as the code has it. In every export run with a callback, on a well-formed file
  system whose blobs directory is not inside the working directory: when the callback
  answers any report other than the final notice of completion with the continue flag
  cleared, the export returns the cancelled outcome; and after a cancelled export nothing is
  left at or below the working directory, and the output path holds nothing when it held
  nothing before the run (and is not an ancestor of the working directory).
\<close>

theorem export_cancellation:
  assumes run: "export_model J mgr mf name tag out (Some cb) st = (r, st')"
    and wf: "wf_fs (files st)"
    and TB: "\<not> prefix (export_temp_dir name tag) (blobs_dir mgr)"
  shows "((\<exists>k. length (reports st) \<le> k \<and> k < length (reports st') \<and>
              \<not> cb (take (Suc k) (reports st')) \<and> fst (reports st' ! k) \<noteq> ExportComplete)
            \<longrightarrow> r = OperationCancelled)
       \<and> (r = OperationCancelled \<longrightarrow>
            \<not> cb (reports st') \<and>
            (\<forall>q. prefix (export_temp_dir name tag) q \<longrightarrow> lookup (files st') q = None) \<and>
            (lookup (files st) out = None \<and> \<not> prefix out (export_temp_dir name tag)
               \<longrightarrow> lookup (files st') out = None))"
proof -
  let ?T = "export_temp_dir name tag" and ?B = "blobs_dir mgr"
  let ?pc = "Some cb"
  have Tne: "?T \<noteq> []" by (rule export_temp_dir_nonempty)
  have BT: "?B \<noteq> ?T" using TB by auto
  let ?bad = "\<exists>k. length (reports st) \<le> k \<and> k < length (reports st') \<and>
              \<not> cb (take (Suc k) (reports st')) \<and> fst (reports st' ! k) \<noteq> ExportComplete"
  have ans: "\<not> ?bad" if "answered ?pc (reports st) (reports st')"
    using that by (auto simp: answered_def)
  from export_model_result[OF run wf BT] consider
    (same) "reports st' = reports st" "r \<noteq> OperationCancelled"
  | (answered) "answered ?pc (reports st) (reports st')" "r \<noteq> OperationCancelled"
  | (cancel) fs1 where "stage_manifest J ?T mf name tag (files st) = Inr fs1"
      "r = OperationCancelled" "cancelled ?pc (reports st) (reports st')"
      "\<forall>q. prefix ?T q \<longrightarrow> lookup (files st') q = None"
      "lookup (files st') out = None \<or> lookup (files st') out = lookup fs1 out"
  | (ok) hm where "r = NoError" "answered ?pc (reports st) hm"
      "reports st' = hm @ [(ExportComplete, 100)]"
    by auto
  then show ?thesis
  proof cases
    case same
    then show ?thesis by auto
  next
    case answered
    with ans show ?thesis by auto
  next
    case ok
    have "\<not> ?bad"
    proof
      assume ?bad
      then obtain k where k: "length (reports st) \<le> k" "k < length (reports st')"
        "\<not> cb (take (Suc k) (reports st'))" "fst (reports st' ! k) \<noteq> ExportComplete" by blast
      show False
      proof (cases "k < length hm")
        case True
        then have "take (Suc k) (reports st') = take (Suc k) hm" by (simp add: ok(3))
        with ok(2) k(1,3) True show False by (auto simp: answered_def)
      next
        case False
        with k(2) have "k = length hm" by (simp add: ok(3))
        with k(4) show False by (simp add: ok(3))
      qed
    qed
    with ok(1) show ?thesis by auto
  next
    case cancel
    from cancel(3) have "\<not> cb (reports st')" by (auto simp: cancelled_def)
    moreover have "lookup (files st') out = None"
      if "lookup (files st) out = None" "\<not> prefix out ?T"
    proof (cases "prefix ?T out")
      case True
      with cancel(4) show ?thesis by simp
    next
      case False
      from stage_manifest_outside[OF cancel(1) wf Tne False that(2)] that(1) cancel(5)
      show ?thesis by auto
    qed
    ultimately show ?thesis using cancel(2,4) by auto
  qed
qed

subsection \<open>The export of the small repository\<close>

text \<open>
  Claim C6, on the scenario of the specification (a layer of 1073741824 bytes, a config of
  4096 bytes, both blobs present, a callback that always continues): the reports of the
  run. The checkpoint after the copy of the layer reports more than 95, and the one after
  the copy of the config reports 100, before the archive phase reports 95.
\<close>

theorem export_progress_above_95:
  "reports (snd (example_export (Some always_continue) example_files))
     = [(Copying ''sha256-aa'' 1024, 0),
        (Copied ''sha256-aa'', 1073741824 / 1073745920 * 100),
        (CopyingConfig ''sha256-bb'', 1073741824 / 1073745920 * 100),
        (CopiedConfig ''sha256-bb'', 100),
        (CreatingArchive, 95),
        (AddingToArchive ''sha256-aa'', 95),
        (AddingToArchive ''sha256-bb'', 95),
        (ExportComplete, 100)]
   \<and> (95 :: real) < 1073741824 / 1073745920 * 100"
  by code_simp










theorem export_cancellation_witness:
  "fst (example_export (Some (stop_at_report 6)) example_files) = OperationCancelled
   \<and> \<not> stop_at_report 6 (reports (snd (example_export (Some (stop_at_report 6)) example_files)))
   \<and> lookup (files (snd (example_export (Some (stop_at_report 6)) example_files)))
        (export_temp_dir ''m'' ''t'') = None
   \<and> lookup (files (snd (example_export (Some (stop_at_report 6)) example_files)))
        (export_temp_dir ''m'' ''t'' @ [''manifest'']) = None
   \<and> lookup (files (snd (example_export (Some (stop_at_report 6)) example_files))) [''h'', ''o'']
        = None"
proof -
  let ?run = "example_export (Some (stop_at_report 6)) example_files"
  have r: "fst ?run = OperationCancelled" by code_simp
  have run: "export_model example_json example_manager example_manifest_file ''m'' ''t'' [''h'', ''o'']
       (Some (stop_at_report 6)) \<lparr>files = example_files, reports = []\<rparr> = (OperationCancelled, snd ?run)"
    using r unfolding example_export_def by (metis prod.collapse)
  have wf: "wf_fs (files \<lparr>files = example_files, reports = []\<rparr>)" by code_simp
  have TB: "\<not> prefix (export_temp_dir ''m'' ''t'') (blobs_dir example_manager)" by code_simp
  have o: "lookup (files \<lparr>files = example_files, reports = []\<rparr>) [''h'', ''o''] = None \<and>
           \<not> prefix [''h'', ''o''] (export_temp_dir ''m'' ''t'')" by code_simp
  from export_cancellation[OF run wf TB] o
  have "\<not> stop_at_report 6 (reports (snd ?run))"
    and g: "\<forall>q. prefix (export_temp_dir ''m'' ''t'') q \<longrightarrow> lookup (files (snd ?run)) q = None"
    and "lookup (files (snd ?run)) [''h'', ''o''] = None"
    by auto
  with r g[rule_format, of "export_temp_dir ''m'' ''t''"]
       g[rule_format, of "export_temp_dir ''m'' ''t'' @ [''manifest'']"]
  show ?thesis by simp
qed

text \<open>The callback asks to stop at the notice of completion: the export has succeeded, and
  the archive stays.\<close>

theorem export_cancellation_counterexample:
  "\<not> stop_at_completion (reports (snd (example_export (Some stop_at_completion) example_files)))
   \<and> fst (example_export (Some stop_at_completion) example_files) = NoError
   \<and> lookup (files (snd (example_export (Some stop_at_completion) example_files))) [''h'', ''o'']
       = Some (File (Archive [(''metadata.json'', Data ''m:t''), (''manifest'', Data ''M''),
                               (''sha256-aa'', Data ''A''), (''sha256-bb'', Data ''B'')]))"
  by code_simp


subsection \<open>The scan\<close>

lemma has_variant_Nil [simp]: "\<not> has_variant [] n v"
  by (simp add: has_variant_def)












subsection \<open>The delete\<close>


















subsection \<open>References without the prefix\<close>





subsection \<open>The import\<close>












subsection \<open>The round trip\<close>




end
